theory Spec2Isabelle
  imports Complex_Main "HOL-Library.Multiset" "HOL-Library.Sublist"
begin

section \<open>Values of the document model\<close>

text \<open>
  The module \<^verbatim>\<open>mockfirestore/transforms.py\<close> works on nested Python dictionaries whose
  leaves are scalars, sequences and transform instructions. A Python value is a term of
  the datatype \<open>val\<close>; a dictionary is an association list in insertion order, as a
  Python \<^verbatim>\<open>dict\<close> is. Exceptions are values of \<open>error\<close>, and a function that can
  raise returns \<open>error + 'a\<close> with \<open>Inl\<close> for the exception.

  The type parameter \<open>'f\<close> is the type of Python floats. Floating-point arithmetic is
  not defined here: every operation on floats is a field of the record \<open>runtime\<close>, so
  each theorem holds for whatever the interpreter computes.
\<close>

datatype error = KeyError | TypeError | ValueError string | OverflowError | IndexError

text \<open>
  The five transform classes (lines 39, 53, 89, 103, 120 of the source). The argument is
  the attribute \<^verbatim>\<open>_values\<close> of \<^verbatim>\<open>_ValueList\<close>, or \<^verbatim>\<open>_value\<close> of \<^verbatim>\<open>_NumericValue\<close>.
\<close>

datatype 'v transform =
    ArrayUnion "'v list"
  | ArrayRemove "'v list"
  | Increment 'v
  | Maximum 'v
  | Minimum 'v

datatype 'f val =
    VNull
  | VBool bool
  | VInt int
  | VFloat 'f
  | VStr string
  | VList "'f val list"
  | VTuple "'f val list"
  | VDict "(string \<times> 'f val) list"
  | VTrans "'f val transform"

type_synonym 'f dict = "(string \<times> 'f val) list"

text \<open>
  What the interpreter supplies and this development leaves open: float addition, the
  conversion of an integer to a float (\<open>None\<close> when the integer is out of the float
  range, where Python raises \<^verbatim>\<open>OverflowError\<close>), the comparisons that involve a float,
  and the order in which \<^verbatim>\<open>list(s)\<close> enumerates the elements of a set \<open>s\<close>.
\<close>

record 'f runtime =
  float_add :: "'f \<Rightarrow> 'f \<Rightarrow> 'f"
  float_of_int :: "int \<Rightarrow> 'f option"
  float_lt :: "'f \<Rightarrow> 'f \<Rightarrow> bool"
  int_lt_float :: "int \<Rightarrow> 'f \<Rightarrow> bool"
  float_lt_int :: "'f \<Rightarrow> int \<Rightarrow> bool"
  float_eq :: "'f \<Rightarrow> 'f \<Rightarrow> bool"
  int_eq_float :: "int \<Rightarrow> 'f \<Rightarrow> bool"
  set_order :: "'f val list \<Rightarrow> 'f val list"

subsection \<open>Numbers\<close>

text \<open>
  \<^verbatim>\<open>isinstance(x, (int, float))\<close>. In Python \<^verbatim>\<open>bool\<close> is a subclass of \<^verbatim>\<open>int\<close>, so
  \<^verbatim>\<open>True\<close> and \<^verbatim>\<open>False\<close> pass the test and count as the integers 1 and 0 in arithmetic
  and in comparisons.
\<close>

fun isinstance_int_float :: "'f val \<Rightarrow> bool" where
  "isinstance_int_float (VBool b) = True"
| "isinstance_int_float (VInt i) = True"
| "isinstance_int_float (VFloat f) = True"
| "isinstance_int_float v = False"

fun isinstance_float :: "'f val \<Rightarrow> bool" where
  "isinstance_float (VFloat f) = True"
| "isinstance_float v = False"

datatype 'f pynum = NInt int | NFloat 'f

fun to_num :: "'f val \<Rightarrow> 'f pynum option" where
  "to_num (VBool b) = Some (NInt (if b then 1 else 0))"
| "to_num (VInt i) = Some (NInt i)"
| "to_num (VFloat f) = Some (NFloat f)"
| "to_num v = None"

fun num_add :: "'f runtime \<Rightarrow> 'f pynum \<Rightarrow> 'f pynum \<Rightarrow> error + 'f val" where
  "num_add rt (NInt i) (NInt j) = Inr (VInt (i + j))"
| "num_add rt (NInt i) (NFloat g) =
     (case float_of_int rt i of
        None \<Rightarrow> Inl OverflowError
      | Some f \<Rightarrow> Inr (VFloat (float_add rt f g)))"
| "num_add rt (NFloat f) (NInt j) =
     (case float_of_int rt j of
        None \<Rightarrow> Inl OverflowError
      | Some g \<Rightarrow> Inr (VFloat (float_add rt f g)))"
| "num_add rt (NFloat f) (NFloat g) = Inr (VFloat (float_add rt f g))"

fun num_lt :: "'f runtime \<Rightarrow> 'f pynum \<Rightarrow> 'f pynum \<Rightarrow> bool" where
  "num_lt rt (NInt i) (NInt j) = (i < j)"
| "num_lt rt (NInt i) (NFloat g) = int_lt_float rt i g"
| "num_lt rt (NFloat f) (NInt j) = float_lt_int rt f j"
| "num_lt rt (NFloat f) (NFloat g) = float_lt rt f g"

fun num_eq :: "'f runtime \<Rightarrow> 'f pynum \<Rightarrow> 'f pynum \<Rightarrow> bool" where
  "num_eq rt (NInt i) (NInt j) = (i = j)"
| "num_eq rt (NInt i) (NFloat g) = int_eq_float rt i g"
| "num_eq rt (NFloat f) (NInt j) = int_eq_float rt j f"
| "num_eq rt (NFloat f) (NFloat g) = float_eq rt f g"

subsection \<open>The operators the module uses\<close>

text \<open>
  Python's \<^verbatim>\<open>a + b\<close>: numbers add (an integer meeting a float is converted first),
  strings, lists and tuples concatenate with their own kind, anything else raises
  \<^verbatim>\<open>TypeError\<close>.
\<close>

definition py_add :: "'f runtime \<Rightarrow> 'f val \<Rightarrow> 'f val \<Rightarrow> error + 'f val" where
  "py_add rt a b =
     (case (to_num a, to_num b) of
        (Some x, Some y) \<Rightarrow> num_add rt x y
      | _ \<Rightarrow>
        (case (a, b) of
           (VStr s, VStr t) \<Rightarrow> Inr (VStr (s @ t))
         | (VList xs, VList ys) \<Rightarrow> Inr (VList (xs @ ys))
         | (VTuple xs, VTuple ys) \<Rightarrow> Inr (VTuple (xs @ ys))
         | _ \<Rightarrow> Inl TypeError))"

text \<open>
  \<^verbatim>\<open>max(a, b)\<close> and \<^verbatim>\<open>min(a, b)\<close> on two numbers: Python keeps the first argument
  unless the second is strictly greater (strictly less for \<^verbatim>\<open>min\<close>), so on a tie the
  result is \<open>a\<close>. The module calls them on numbers only (line 114 guards the current
  value, the constructor guards the operand); any other pair is a \<^verbatim>\<open>TypeError\<close> here.
\<close>

definition py_max :: "'f runtime \<Rightarrow> 'f val \<Rightarrow> 'f val \<Rightarrow> error + 'f val" where
  "py_max rt a b =
     (case (to_num a, to_num b) of
        (Some x, Some y) \<Rightarrow> Inr (if num_lt rt x y then b else a)
      | _ \<Rightarrow> Inl TypeError)"

definition py_min :: "'f runtime \<Rightarrow> 'f val \<Rightarrow> 'f val \<Rightarrow> error + 'f val" where
  "py_min rt a b =
     (case (to_num a, to_num b) of
        (Some x, Some y) \<Rightarrow> Inr (if num_lt rt y x then b else a)
      | _ \<Rightarrow> Inl TypeError)"

subsection \<open>Sets\<close>

text \<open>
  Lists and dictionaries are unhashable, a tuple is hashable when its elements are, every
  other value is hashable (an object of a class without \<^verbatim>\<open>__hash__\<close> of its own, such as
  a transform, hashes by identity).
\<close>

fun py_hashable :: "'f val \<Rightarrow> bool" where
  "py_hashable (VList xs) = False"
| "py_hashable (VDict m) = False"
| "py_hashable (VTuple xs) = list_all py_hashable xs"
| "py_hashable v = True"

text \<open>
  Python's \<^verbatim>\<open>==\<close> as a set uses it: numbers compare by value across \<^verbatim>\<open>bool\<close>, \<^verbatim>\<open>int\<close>
  and \<^verbatim>\<open>float\<close>, tuples compare element by element, other values compare with their
  own kind. Two transform objects are equal in Python only when they are the same object;
  a value of \<open>val\<close> carries no identity, so equal instructions are identified here.
\<close>

fun py_eq :: "'f runtime \<Rightarrow> 'f val \<Rightarrow> 'f val \<Rightarrow> bool" where
  "py_eq rt (VTuple xs) (VTuple ys) = list_all2 (py_eq rt) xs ys"
| "py_eq rt a b =
     (case (to_num a, to_num b) of
        (Some x, Some y) \<Rightarrow> num_eq rt x y
      | _ \<Rightarrow> a = b)"

definition py_mem :: "'f runtime \<Rightarrow> 'f val \<Rightarrow> 'f val list \<Rightarrow> bool" where
  "py_mem rt x xs = list_ex (py_eq rt x) xs"

text \<open>
  Iterating over a value, as \<^verbatim>\<open>set(item)\<close> does: a list or tuple gives its elements, a
  string its characters, a dictionary its keys; a scalar is not iterable.
\<close>

fun py_iter :: "'f val \<Rightarrow> error + 'f val list" where
  "py_iter (VList xs) = Inr xs"
| "py_iter (VTuple xs) = Inr xs"
| "py_iter (VStr s) = Inr (map (\<lambda>c. VStr [c]) s)"
| "py_iter (VDict m) = Inr (map (\<lambda>kv. VStr (fst kv)) m)"
| "py_iter v = Inl TypeError"

text \<open>
  \<^verbatim>\<open>set(v)\<close>: the elements are inserted one by one, an element equal to one already
  present is dropped, an unhashable element raises \<^verbatim>\<open>TypeError\<close>. The set is kept as
  the list of its elements; the order in which Python later enumerates them is
  \<open>set_order\<close> of the runtime.
\<close>

definition set_add :: "'f runtime \<Rightarrow> 'f val list \<Rightarrow> 'f val \<Rightarrow> 'f val list" where
  "set_add rt s x = (if py_mem rt x s then s else s @ [x])"

definition py_set :: "'f runtime \<Rightarrow> 'f val \<Rightarrow> error + 'f val list" where
  "py_set rt v =
     (case py_iter v of
        Inl e \<Rightarrow> Inl e
      | Inr xs \<Rightarrow>
          if list_all py_hashable xs then Inr (foldl (set_add rt) [] xs)
          else Inl TypeError)"

definition set_difference :: "'f runtime \<Rightarrow> 'f val list \<Rightarrow> 'f val list \<Rightarrow> 'f val list" where
  "set_difference rt s t = filter (\<lambda>x. \<not> py_mem rt x t) s"

subsection \<open>Dictionaries and dotted keys\<close>

text \<open>\<^verbatim>\<open>d[k] = v\<close>: an existing key keeps its position, a new key goes last.\<close>

fun dict_set :: "('k \<times> 'v) list \<Rightarrow> 'k \<Rightarrow> 'v \<Rightarrow> ('k \<times> 'v) list" where
  "dict_set [] k v = [(k, v)]"
| "dict_set ((k', v') # kvs) k v =
     (if k' = k then (k, v) # kvs else (k', v') # dict_set kvs k v)"

text \<open>\<^verbatim>\<open>d.update(other)\<close>: the items of \<open>other\<close> are stored into \<open>d\<close> in order.\<close>

definition dict_update :: "('k \<times> 'v) list \<Rightarrow> ('k \<times> 'v) list \<Rightarrow> ('k \<times> 'v) list" where
  "dict_update d other = foldl (\<lambda>acc kv. dict_set acc (fst kv) (snd kv)) d other"

text \<open>\<^verbatim>\<open>key.split(".")\<close>: the key is cut at every dot; the result is never empty.\<close>

fun split_dot :: "string \<Rightarrow> string list" where
  "split_dot [] = [ [] ]"
| "split_dot (c # cs) =
     (if c = CHR ''.'' then [] # split_dot cs
      else (case split_dot cs of
              [] \<Rightarrow> [ [c] ]
            | w # ws \<Rightarrow> (c # w) # ws))"

section \<open>The helpers of \<^verbatim>\<open>mockfirestore/_helpers.py\<close>\<close>

text \<open>
  Modelled from the spec: \<^verbatim>\<open>get_by_path\<close> of \<^verbatim>\<open>mockfirestore/_helpers.py\<close>, imported at
  line 4 of the source. It walks the document by successive key lookups
  along the segments of the path; an absent segment is \<^verbatim>\<open>PathNotFound\<close> (Python's
  \<^verbatim>\<open>KeyError\<close>), a segment looked up in a value that is not a mapping is
  \<^verbatim>\<open>TypeShapeError\<close> (Python's \<^verbatim>\<open>TypeError\<close>: neither a scalar, nor a sequence, nor an
  object can be subscripted with a string).
\<close>

fun get_by_path :: "'f val \<Rightarrow> string list \<Rightarrow> error + 'f val" where
  "get_by_path v [] = Inr v"
| "get_by_path (VDict m) (k # ks) =
     (case map_of m k of
        None \<Rightarrow> Inl KeyError
      | Some v \<Rightarrow> get_by_path v ks)"
| "get_by_path v (k # ks) = Inl TypeError"

text \<open>
  Modelled from the spec: \<^verbatim>\<open>set_by_path\<close> of \<^verbatim>\<open>mockfirestore/_helpers.py\<close>. It walks the
  same way, creates an empty mapping at a missing intermediate segment, then sets the
  leaf; an existing intermediate that is not a mapping is \<^verbatim>\<open>TypeShapeError\<close>. The Python
  mutates the container in place; here the new container is returned. A path without
  segments names no leaf (\<^verbatim>\<open>split\<close> never produces one).
\<close>

fun set_by_path :: "'f dict \<Rightarrow> string list \<Rightarrow> 'f val \<Rightarrow> error + 'f dict" where
  "set_by_path m [] v = Inl IndexError"
| "set_by_path m [k] v = Inr (dict_set m k v)"
| "set_by_path m (k # k' # ks) v =
     (case map_of m k of
        None \<Rightarrow>
          (case set_by_path [] (k' # ks) v of
             Inl e \<Rightarrow> Inl e
           | Inr sub \<Rightarrow> Inr (dict_set m k (VDict sub)))
      | Some (VDict sub) \<Rightarrow>
          (case set_by_path sub (k' # ks) v of
             Inl e \<Rightarrow> Inl e
           | Inr sub' \<Rightarrow> Inr (dict_set m k (VDict sub')))
      | Some _ \<Rightarrow> Inl TypeError)"

text \<open>
  Modelled from the spec: \<^verbatim>\<open>get_document_iterator\<close> of \<^verbatim>\<open>mockfirestore/_helpers.py\<close>. It
  flattens the payload into pairs of a dotted path and a leaf, depth first, in the
  insertion order of the keys, joining nested keys with a dot; it descends into nested
  mappings only, so sequences and transform instructions are leaves. The sequence is
  the flattening of the payload as it is handed to the engine.
\<close>

fun iterate_value :: "string \<Rightarrow> 'f val \<Rightarrow> (string \<times> 'f val) list" where
  "iterate_value pre (VDict m) =
     concat (map (\<lambda>(k, v). iterate_value (pre @ ''.'' @ k) v) m)"
| "iterate_value pre v = [(pre, v)]"

definition get_document_iterator :: "'f dict \<Rightarrow> (string \<times> 'f val) list" where
  "get_document_iterator data = concat (map (\<lambda>(k, v). iterate_value k v) data)"

section \<open>The transform classes\<close>

subsection \<open>Constructors\<close>

text \<open>\<^verbatim>\<open>_ValueList.__init__\<close>, lines 21 to 28; the result is the attribute \<^verbatim>\<open>_values\<close>.\<close>

definition ValueList_init :: "'f val \<Rightarrow> error + 'f val list" where
  "ValueList_init values =
     (case values of
        VList xs \<Rightarrow>
          if length xs = 0 then Inl (ValueError '''values' must be non-empty.'')
          else Inr xs
      | VTuple xs \<Rightarrow>
          if length xs = 0 then Inl (ValueError '''values' must be non-empty.'')
          else Inr xs
      | _ \<Rightarrow> Inl (ValueError '''values' must be a list or tuple.''))"

text \<open>\<^verbatim>\<open>_NumericValue.__init__\<close>, lines 74 to 78; the result is the attribute \<^verbatim>\<open>_value\<close>.\<close>

definition NumericValue_init :: "'f val \<Rightarrow> error + 'f val" where
  "NumericValue_init v =
     (if \<not> isinstance_int_float v then Inl (ValueError ''Pass an integer / float value.'')
      else Inr v)"

text \<open>
  The five classes inherit their constructor: \<^verbatim>\<open>ArrayUnion(values)\<close> and
  \<^verbatim>\<open>ArrayRemove(values)\<close> run \<^verbatim>\<open>_ValueList.__init__\<close>, the other three run
  \<^verbatim>\<open>_NumericValue.__init__\<close>.
\<close>

definition ArrayUnion_init :: "'f val \<Rightarrow> error + 'f val transform" where
  "ArrayUnion_init values = map_sum id ArrayUnion (ValueList_init values)"

definition ArrayRemove_init :: "'f val \<Rightarrow> error + 'f val transform" where
  "ArrayRemove_init values = map_sum id ArrayRemove (ValueList_init values)"

definition Increment_init :: "'f val \<Rightarrow> error + 'f val transform" where
  "Increment_init v = map_sum id Increment (NumericValue_init v)"

definition Maximum_init :: "'f val \<Rightarrow> error + 'f val transform" where
  "Maximum_init v = map_sum id Maximum (NumericValue_init v)"

definition Minimum_init :: "'f val \<Rightarrow> error + 'f val transform" where
  "Minimum_init v = map_sum id Minimum (NumericValue_init v)"

subsection \<open>Calls\<close>

text \<open>
  Every \<^verbatim>\<open>__call__\<close> reads the current value inside
  \<^verbatim>\<open>try: ... except (TypeError, KeyError):\<close>. \<open>caught\<close> is that clause; \<open>read_or\<close> is
  the whole \<^verbatim>\<open>try\<close> statement with the value the handler assigns.
\<close>

definition caught :: "error \<Rightarrow> bool" where
  "caught e = (e = TypeError \<or> e = KeyError)"

definition read_or :: "'f val \<Rightarrow> 'f dict \<Rightarrow> string list \<Rightarrow> error + 'f val" where
  "read_or dflt document path =
     (case get_by_path (VDict document) path of
        Inr item \<Rightarrow> Inr item
      | Inl e \<Rightarrow> if caught e then Inr dflt else Inl e)"

text \<open>\<^verbatim>\<open>ArrayUnion.__call__\<close>, lines 45 to 50.\<close>

definition ArrayUnion_call ::
  "'f runtime \<Rightarrow> 'f val list \<Rightarrow> 'f dict \<Rightarrow> string list \<Rightarrow> error + 'f val" where
  "ArrayUnion_call rt values document path =
     (case read_or (VList []) document path of
        Inl e \<Rightarrow> Inl e
      | Inr item \<Rightarrow> py_add rt item (VList values))"

text \<open>\<^verbatim>\<open>ArrayRemove.__call__\<close>, lines 59 to 65.\<close>

definition ArrayRemove_call ::
  "'f runtime \<Rightarrow> 'f val list \<Rightarrow> 'f dict \<Rightarrow> string list \<Rightarrow> error + 'f val" where
  "ArrayRemove_call rt values document path =
     (case read_or (VList []) document path of
        Inl e \<Rightarrow> Inl e
      | Inr item \<Rightarrow>
          (case py_set rt item of
             Inl e \<Rightarrow> Inl e
           | Inr s \<Rightarrow>
               (case py_set rt (VList values) of
                  Inl e \<Rightarrow> Inl e
                | Inr t \<Rightarrow> Inr (VList (set_order rt (set_difference rt s t))))))"

text \<open>\<^verbatim>\<open>Increment.__call__\<close>, lines 95 to 100.\<close>

definition Increment_call ::
  "'f runtime \<Rightarrow> 'f val \<Rightarrow> 'f dict \<Rightarrow> string list \<Rightarrow> error + 'f val" where
  "Increment_call rt v document path =
     (case read_or (VInt 0) document path of
        Inl e \<Rightarrow> Inl e
      | Inr item \<Rightarrow> py_add rt item v)"

text \<open>
  \<^verbatim>\<open>Maximum.__call__\<close>, lines 109 to 117, and \<^verbatim>\<open>Minimum.__call__\<close>, lines 126 to 134.
  The handler sets \<^verbatim>\<open>exists = False\<close> and the operand is returned.
\<close>

definition Maximum_call ::
  "'f runtime \<Rightarrow> 'f val \<Rightarrow> 'f dict \<Rightarrow> string list \<Rightarrow> error + 'f val" where
  "Maximum_call rt v document path =
     (case get_by_path (VDict document) path of
        Inr item \<Rightarrow> if isinstance_int_float item then py_max rt item v else Inr v
      | Inl e \<Rightarrow> if caught e then Inr v else Inl e)"

definition Minimum_call ::
  "'f runtime \<Rightarrow> 'f val \<Rightarrow> 'f dict \<Rightarrow> string list \<Rightarrow> error + 'f val" where
  "Minimum_call rt v document path =
     (case get_by_path (VDict document) path of
        Inr item \<Rightarrow> if isinstance_int_float item then py_min rt item v else Inr v
      | Inl e \<Rightarrow> if caught e then Inr v else Inl e)"

text \<open>\<^verbatim>\<open>value(document, path)\<close> for an instance of \<^verbatim>\<open>_Transform\<close>: the call of its class.\<close>

fun transform_call ::
  "'f runtime \<Rightarrow> 'f val transform \<Rightarrow> 'f dict \<Rightarrow> string list \<Rightarrow> error + 'f val" where
  "transform_call rt (ArrayUnion values) document path = ArrayUnion_call rt values document path"
| "transform_call rt (ArrayRemove values) document path = ArrayRemove_call rt values document path"
| "transform_call rt (Increment v) document path = Increment_call rt v document path"
| "transform_call rt (Maximum v) document path = Maximum_call rt v document path"
| "transform_call rt (Minimum v) document path = Minimum_call rt v document path"

section \<open>The engine\<close>

text \<open>
  Lines 159 to 163: the class name of the value selects the auxiliary dictionary that
  records the raw operand under the dotted key. Among the values of \<open>val\<close> the class
  name \<^verbatim>\<open>Increment\<close> belongs to the instances of \<open>Increment\<close> and the class name
  \<^verbatim>\<open>ArrayUnion\<close> to the instances of \<open>ArrayUnion\<close>; an object of a foreign class that
  bears one of these names is not a value of \<open>val\<close>.
\<close>

fun classify ::
  "string \<Rightarrow> 'f val \<Rightarrow> 'f dict \<times> 'f dict \<Rightarrow> 'f dict \<times> 'f dict" where
  "classify key (VTrans (Increment v)) (increments, arr_unions) =
     (dict_set increments key v, arr_unions)"
| "classify key (VTrans (ArrayUnion values)) (increments, arr_unions) =
     (increments, dict_set arr_unions key (VList values))"
| "classify key value st = st"

text \<open>
  Lines 145 and 146: an instance of \<^verbatim>\<open>_Transform\<close> is called on the document and the
  result is written into the payload at the path; any other leaf leaves the payload as it
  is.
\<close>

fun write_transform ::
  "'f runtime \<Rightarrow> 'f dict \<Rightarrow> 'f dict \<Rightarrow> string list \<Rightarrow> 'f val \<Rightarrow> error + 'f dict" where
  "write_transform rt document data path (VTrans t) =
     (case transform_call rt t document path of
        Inl e \<Rightarrow> Inl e
      | Inr v \<Rightarrow> set_by_path data path v)"
| "write_transform rt document data path value = Inr data"

text \<open>
  The loop of lines 143 to 163 over the pairs of the iterator. The state is the payload
  and the two auxiliary dictionaries; an exception leaves the loop.
\<close>

fun transform_loop ::
  "'f runtime \<Rightarrow> 'f dict \<Rightarrow> (string \<times> 'f val) list \<Rightarrow> 'f dict \<Rightarrow> 'f dict \<times> 'f dict \<Rightarrow>
     error + 'f dict \<times> 'f dict \<times> 'f dict" where
  "transform_loop rt document [] data aux = Inr (data, aux)"
| "transform_loop rt document ((key, value) # rest) data aux =
     (case write_transform rt document data (split_dot key) value of
        Inl e \<Rightarrow> Inl e
      | Inr data' \<Rightarrow> transform_loop rt document rest data' (classify key value aux))"

text \<open>
  \<^verbatim>\<open>_update_data_with_firestore_transforms\<close>, lines 165 to 175: for every recorded key
  the document is read again, with the default when the read raises, and the sum of the
  value read and the operand is written into the payload.
\<close>

fun update_data_with_firestore_transforms ::
  "'f runtime \<Rightarrow> 'f dict \<Rightarrow> 'f dict \<Rightarrow> 'f val \<Rightarrow> 'f dict \<Rightarrow> error + 'f dict" where
  "update_data_with_firestore_transforms rt document [] dflt data = Inr data"
| "update_data_with_firestore_transforms rt document ((key, value) # new_values) dflt data =
     (case read_or dflt document (split_dot key) of
        Inl e \<Rightarrow> Inl e
      | Inr item \<Rightarrow>
          (case py_add rt item value of
             Inl e \<Rightarrow> Inl e
           | Inr v \<Rightarrow>
               (case set_by_path data (split_dot key) v of
                  Inl e \<Rightarrow> Inl e
                | Inr data' \<Rightarrow>
                    update_data_with_firestore_transforms rt document new_values dflt data')))"

text \<open>
  \<^verbatim>\<open>_apply_transformations\<close>, lines 137 to 180. The Python mutates the payload and then
  the document in place and returns nothing; here the function returns the document and
  the payload as they are after the call, or the exception that ended it.
\<close>

definition apply_transformations ::
  "'f runtime \<Rightarrow> 'f dict \<Rightarrow> 'f dict \<Rightarrow> error + 'f dict \<times> 'f dict" where
  "apply_transformations rt document data =
     (case transform_loop rt document (get_document_iterator data) data ([], []) of
        Inl e \<Rightarrow> Inl e
      | Inr (data1, increments, arr_unions) \<Rightarrow>
          (case update_data_with_firestore_transforms rt document increments (VInt 0) data1 of
             Inl e \<Rightarrow> Inl e
           | Inr data2 \<Rightarrow>
               (case update_data_with_firestore_transforms rt document arr_unions (VList []) data2 of
                  Inl e \<Rightarrow> Inl e
                | Inr data3 \<Rightarrow> Inr (dict_update document data3, data3))))"

text \<open>
  The single-pass engine that section 9 of the specification recommends, written from
  its words (steps 1, 2 and 4 of section 4.4, without the recomputation of step 3): every
  instruction is computed once and written into the payload, then the payload is merged
  into the document.
\<close>

definition single_pass_merge ::
  "'f runtime \<Rightarrow> 'f dict \<Rightarrow> 'f dict \<Rightarrow> error + 'f dict \<times> 'f dict" where
  "single_pass_merge rt document data =
     (case transform_loop rt document (get_document_iterator data) data ([], []) of
        Inl e \<Rightarrow> Inl e
      | Inr (data1, aux) \<Rightarrow> Inr (dict_update document data1, data1))"

section \<open>A runtime for evaluating examples\<close>

text \<open>
  The examples below contain no float, so no field of the float arithmetic is consulted
  when they are evaluated. The runtime that evaluates them takes the rationals for the
  floats, with exact arithmetic, and enumerates a set in the order of insertion.
\<close>

definition example_runtime :: "rat runtime" where
  "example_runtime =
     \<lparr> float_add = (\<lambda>f g. f + g),
       float_of_int = (\<lambda>i. Some (of_int i)),
       float_lt = (\<lambda>f g. f < g),
       int_lt_float = (\<lambda>i g. of_int i < g),
       float_lt_int = (\<lambda>f j. f < of_int j),
       float_eq = (\<lambda>f g. f = g),
       int_eq_float = (\<lambda>i g. of_int i = g),
       set_order = (\<lambda>xs. xs) \<rparr>"

section \<open>Notions used in the statements\<close>

text \<open>
  The number of elements of a list that Python's \<^verbatim>\<open>==\<close> identifies with \<open>x\<close>.
\<close>

definition py_count :: "'f runtime \<Rightarrow> 'f val \<Rightarrow> 'f val list \<Rightarrow> nat" where
  "py_count rt x xs = length (filter (py_eq rt x) xs)"

text \<open>
  A set is only meaningful over values on which \<^verbatim>\<open>==\<close> is an equivalence. It is one on
  strings, integers, booleans and \<^verbatim>\<open>None\<close>; whether it is one on the floats at hand
  depends on the runtime (a NaN is not equal to itself).
\<close>

definition py_equivalence :: "'f runtime \<Rightarrow> 'f val set \<Rightarrow> bool" where
  "py_equivalence rt A =
     ((\<forall>x \<in> A. py_eq rt x x)
      \<and> (\<forall>x \<in> A. \<forall>y \<in> A. py_eq rt x y \<longrightarrow> py_eq rt y x)
      \<and> (\<forall>x \<in> A. \<forall>y \<in> A. \<forall>z \<in> A. py_eq rt x y \<and> py_eq rt y z \<longrightarrow> py_eq rt x z))"

text \<open>
  Whatever order the runtime enumerates a set in, it yields every element once: the
  enumeration is a permutation of the elements.
\<close>

definition enumerates :: "'f runtime \<Rightarrow> bool" where
  "enumerates rt = (\<forall>xs. mset (set_order rt xs) = mset xs)"

text \<open>
  The paths at which the loop writes: those of the pairs whose leaf is an instruction.
  They are independent when no path is a prefix of another one; in particular no path
  occurs twice.
\<close>

fun transform_paths :: "(string \<times> 'f val) list \<Rightarrow> string list list" where
  "transform_paths [] = []"
| "transform_paths ((key, VTrans t) # rest) = split_dot key # transform_paths rest"
| "transform_paths ((key, value) # rest) = transform_paths rest"

fun independent_paths :: "string list list \<Rightarrow> bool" where
  "independent_paths [] = True"
| "independent_paths (p # ps) =
     (list_all (\<lambda>q. \<not> prefix p q \<and> \<not> prefix q p) ps \<and> independent_paths ps)"

text \<open>
  A recorded operand is settled in a payload when the payload already holds, at the path
  of its key, the sum of the document's value (or the default) and the operand: the
  value that \<open>update_data_with_firestore_transforms\<close> is about to write there.
\<close>

definition settled ::
  "'f runtime \<Rightarrow> 'f dict \<Rightarrow> 'f val \<Rightarrow> 'f dict \<Rightarrow> string \<times> 'f val \<Rightarrow> bool" where
  "settled rt document dflt data kv =
     (case read_or dflt document (split_dot (fst kv)) of
        Inl e \<Rightarrow> False
      | Inr item \<Rightarrow>
          (case py_add rt item (snd kv) of
             Inl e \<Rightarrow> False
           | Inr v \<Rightarrow> get_by_path (VDict data) (split_dot (fst kv)) = Inr v))"

section \<open>Properties of the constructors\<close>

text \<open>
  C7, as the code has it. The claim says that \<^verbatim>\<open>Increment\<close>, \<^verbatim>\<open>Maximum\<close> and \<^verbatim>\<open>Minimum\<close>
  reject every operand that is neither an integer nor a float. The specification lists
  booleans apart from integers and floats, but the test of line 75 is
  \<^verbatim>\<open>isinstance(value, (int, float))\<close>, and in Python a boolean is an instance of \<^verbatim>\<open>int\<close>:
  the three constructors accept \<^verbatim>\<open>True\<close> and \<^verbatim>\<open>False\<close> and build the instruction.
\<close>

theorem constructors_accept_boolean_operand:
  "Increment_init (VBool True :: rat val) = Inr (Increment (VBool True))
   \<and> Maximum_init (VBool True :: rat val) = Inr (Maximum (VBool True))
   \<and> Minimum_init (VBool False :: rat val) = Inr (Minimum (VBool False))"
  by (simp add: Increment_init_def Maximum_init_def Minimum_init_def NumericValue_init_def)

text \<open>
  C7, amended. Constructing \<^verbatim>\<open>ArrayUnion\<close> or \<^verbatim>\<open>ArrayRemove\<close> with an empty list raises
  \<^verbatim>\<open>ValueError\<close> (the specification's \<^verbatim>\<open>InvalidOperand\<close>). Constructing \<^verbatim>\<open>Increment\<close>,
  \<^verbatim>\<open>Maximum\<close> or \<^verbatim>\<open>Minimum\<close> raises \<^verbatim>\<open>ValueError\<close> exactly when the operand is not an
  instance of \<^verbatim>\<open>int\<close> or \<^verbatim>\<open>float\<close>, that is for \<^verbatim>\<open>None\<close>, a string, a list, a tuple, a
  mapping or an instruction; an integer, a float and also a boolean are accepted and
  become the operand of the instruction. The exception comes from the constructor
  itself, which takes neither a document nor a payload: no instruction exists that a
  merge could be given.
\<close>

theorem construction_rejects_invalid_operand:
  "ArrayUnion_init (VList [] :: 'f val) = Inl (ValueError '''values' must be non-empty.'')
   \<and> ArrayRemove_init (VList [] :: 'f val) = Inl (ValueError '''values' must be non-empty.'')
   \<and> (\<not> isinstance_int_float (v :: 'f val) \<longrightarrow>
        Increment_init v = Inl (ValueError ''Pass an integer / float value.'')
      \<and> Maximum_init v = Inl (ValueError ''Pass an integer / float value.'')
      \<and> Minimum_init v = Inl (ValueError ''Pass an integer / float value.''))
   \<and> (isinstance_int_float v \<longrightarrow>
        Increment_init v = Inr (Increment v)
      \<and> Maximum_init v = Inr (Maximum v)
      \<and> Minimum_init v = Inr (Minimum v))
   \<and> (isinstance_int_float v \<longleftrightarrow>
        (\<exists>b. v = VBool b) \<or> (\<exists>i. v = VInt i) \<or> (\<exists>f. v = VFloat f))"
  by (cases v)
    (simp_all add: ArrayUnion_init_def ArrayRemove_init_def Increment_init_def Maximum_init_def
      Minimum_init_def ValueList_init_def NumericValue_init_def)

theorem construction_rejects_invalid_operand_witness:
  "\<not> isinstance_int_float (VStr ''5'' :: rat val)
   \<and> Increment_init (VStr ''5'' :: rat val) = Inl (ValueError ''Pass an integer / float value.'')
   \<and> Maximum_init (VStr ''5'' :: rat val) = Inl (ValueError ''Pass an integer / float value.'')
   \<and> Minimum_init (VNull :: rat val) = Inl (ValueError ''Pass an integer / float value.'')
   \<and> ArrayUnion_init (VList [] :: rat val) = Inl (ValueError '''values' must be non-empty.'')
   \<and> isinstance_int_float (VInt 5 :: rat val)
   \<and> Increment_init (VInt 5 :: rat val) = Inr (Increment (VInt 5))
   \<and> isinstance_int_float (VBool True :: rat val)
   \<and> Maximum_init (VBool True :: rat val) = Inr (Maximum (VBool True))"
  using construction_rejects_invalid_operand [of "VStr ''5'' :: rat val"]
    construction_rejects_invalid_operand [of "VNull :: rat val"]
    construction_rejects_invalid_operand [of "VInt 5 :: rat val"]
    construction_rejects_invalid_operand [of "VBool True :: rat val"]
  by simp

section \<open>Facts about the helpers\<close>

text \<open>
  Reading a path raises nothing but \<^verbatim>\<open>KeyError\<close> and \<^verbatim>\<open>TypeError\<close>, so the handler of
  every \<^verbatim>\<open>try\<close> statement in the module catches whatever the read raises.
\<close>

lemma get_by_path_caught: "get_by_path v p = Inl e \<Longrightarrow> caught e"
  by (induction v p rule: get_by_path.induct) (auto simp: caught_def split: option.splits)

lemma read_or_present: "get_by_path (VDict D) P = Inr c \<Longrightarrow> read_or d D P = Inr c"
  by (simp add: read_or_def)

lemma read_or_absent: "get_by_path (VDict D) P = Inl e \<Longrightarrow> read_or d D P = Inr d"
  by (simp add: read_or_def get_by_path_caught)

lemma map_of_dict_set: "map_of (dict_set m k v) k' = (if k' = k then Some v else map_of m k')"
  by (induction m) auto

lemma dict_set_same: "map_of m k = Some v \<Longrightarrow> dict_set m k v = m"
  by (induction m) (auto split: if_splits)

lemma dict_set_subset: "set (dict_set m k v) \<subseteq> insert (k, v) (set m)"
  by (induction m) (auto split: if_splits)

lemma split_dot_nonempty: "split_dot k \<noteq> []"
  by (induction k) (auto split: list.splits)

lemma split_dot_plain: "CHR ''.'' \<notin> set k \<Longrightarrow> split_dot k = [k]"
  by (induction k) auto

text \<open>Reading back what was written, and writing what is already there.\<close>

lemma get_after_set:
  "set_by_path m p v = Inr m' \<Longrightarrow> get_by_path (VDict m') p = Inr v"
proof (induction m p v arbitrary: m' rule: set_by_path.induct)
  case (1 m v)
  then show ?case by simp
next
  case (2 m k v)
  then show ?case by (auto simp: map_of_dict_set)
next
  case (3 m k k' ks v)
  then show ?case
    by (auto simp: map_of_dict_set split: option.splits val.splits sum.splits)
qed

lemma set_same_value:
  "get_by_path (VDict m) p = Inr v \<Longrightarrow> p \<noteq> [] \<Longrightarrow> set_by_path m p v = Inr m"
proof (induction m p v rule: set_by_path.induct)
  case (1 m v)
  then show ?case by simp
next
  case (2 m k v)
  then show ?case by (auto simp: dict_set_same split: option.splits)
next
  case (3 m k k' ks v)
  then show ?case
    by (auto simp: dict_set_same split: option.splits val.splits sum.splits)
qed

text \<open>
  A write leaves every path untouched that is neither above nor below the written one.
\<close>

lemma get_frame:
  "set_by_path m q w = Inr m' \<Longrightarrow> \<not> prefix q p \<Longrightarrow> \<not> prefix p q \<Longrightarrow>
     get_by_path (VDict m') p = get_by_path (VDict m) p"
proof (induction m q w arbitrary: m' p rule: set_by_path.induct)
  case (1 m v)
  then show ?case by simp
next
  case (2 m k v)
  then show ?case by (cases p) (auto simp: map_of_dict_set)
next
  case (3 m k k' ks v)
  show ?case
  proof (cases p)
    case Nil
    with 3 show ?thesis by simp
  next
    case (Cons k2 ps)
    show ?thesis
    proof (cases "k2 = k")
      case False
      with 3(3) Cons show ?thesis
        by (auto simp: map_of_dict_set split: option.splits val.splits sum.splits)
    next
      case True
      with 3(4,5) Cons have ind: "\<not> prefix (k' # ks) ps" "\<not> prefix ps (k' # ks)"
        by auto
      then obtain x xs where ps: "ps = x # xs" by (cases ps) auto
      show ?thesis
      proof (cases "map_of m k")
        case None
        with 3(3) obtain sub where sub: "set_by_path [] (k' # ks) v = Inr sub"
          and m': "m' = dict_set m k (VDict sub)"
          by (auto split: sum.splits)
        from "3.IH"(1) [OF None sub ind] have "get_by_path (VDict sub) ps = get_by_path (VDict []) ps" .
        with None m' Cons True ps show ?thesis
          by (simp add: map_of_dict_set)
      next
        case (Some old)
        with 3(3) obtain sub0 sub where old: "old = VDict sub0"
          and sub: "set_by_path sub0 (k' # ks) v = Inr sub"
          and m': "m' = dict_set m k (VDict sub)"
          by (auto split: sum.splits val.splits)
        from "3.IH"(2) [OF Some old sub ind]
        have "get_by_path (VDict sub) ps = get_by_path (VDict sub0) ps" .
        with Some old m' Cons True show ?thesis
          by (simp add: map_of_dict_set)
      qed
    qed
  qed
qed

section \<open>Facts about the operators\<close>

lemma py_add_lists: "py_add rt (VList xs) (VList ys) = Inr (VList (xs @ ys))"
  by (simp add: py_add_def)

lemma py_add_ints: "py_add rt (VInt i) (VInt j) = Inr (VInt (i + j))"
  by (simp add: py_add_def)

lemma py_add_float_iff:
  "isinstance_int_float c \<Longrightarrow> isinstance_int_float n \<Longrightarrow> py_add rt c n = Inr r \<Longrightarrow>
     isinstance_float r \<longleftrightarrow> isinstance_float c \<or> isinstance_float n"
  by (cases c; cases n) (auto simp: py_add_def split: option.splits)

lemma py_max_ints: "py_max rt (VInt i) (VInt j) = Inr (VInt (max i j))"
  by (simp add: py_max_def max_def)

lemma py_min_ints: "py_min rt (VInt i) (VInt j) = Inr (VInt (min i j))"
  by (simp add: py_min_def min_def)

lemma py_add_numbers_error:
  "isinstance_int_float c \<Longrightarrow> isinstance_int_float n \<Longrightarrow> py_add rt c n = Inl e \<Longrightarrow>
     e = OverflowError"
  by (cases c; cases n) (auto simp: py_add_def split: option.splits)

lemma to_num_isinstance: "to_num c = Some x \<Longrightarrow> isinstance_int_float c"
  by (cases c) auto

section \<open>Properties of the calls\<close>

text \<open>
  C1. When the path is absent from the document (the read raises), \<^verbatim>\<open>Increment(n)\<close>
  returns \<open>n\<close>: exactly for an integer, the integer 1 or 0 that Python holds equal to
  \<^verbatim>\<open>True\<close> or \<^verbatim>\<open>False\<close> for a boolean, and \<open>0.0 + n\<close> for a float, which is \<open>n\<close>
  whenever the float addition of the runtime returns \<open>n\<close> for it. When the document holds
  a value \<open>c\<close> at the path, the call returns Python's \<open>c + n\<close>, which is the integer sum
  for two integers; and whenever two numbers have a sum, the sum is a float if and only
  if one of the two is a float. Two numbers have a sum unless an integer among them is
  beyond the range of the floats and meets a float (\<^verbatim>\<open>OverflowError\<close>).
\<close>

theorem Increment_call_adds:
  "(get_by_path (VDict D) P = Inl e \<longrightarrow>
      Increment_call rt (VInt n) D P = Inr (VInt n)
    \<and> Increment_call rt (VBool b) D P = Inr (VInt (if b then 1 else 0))
    \<and> (float_of_int rt 0 = Some z \<and> float_add rt z f = f \<longrightarrow>
         Increment_call rt (VFloat f) D P = Inr (VFloat f)))
   \<and> (get_by_path (VDict D) P = Inr c \<longrightarrow> Increment_call rt v D P = py_add rt c v)
   \<and> (get_by_path (VDict D) P = Inr (VInt i) \<longrightarrow>
        Increment_call rt (VInt n) D P = Inr (VInt (i + n)))
   \<and> (isinstance_int_float c \<and> isinstance_int_float v \<and> py_add rt c v = Inr r \<longrightarrow>
        (isinstance_float r \<longleftrightarrow> isinstance_float c \<or> isinstance_float v))
   \<and> (isinstance_int_float c \<and> isinstance_int_float v \<and> py_add rt c v = Inl e' \<longrightarrow>
        e' = OverflowError)"
  using py_add_float_iff [of c v rt r] py_add_numbers_error [of c v rt e']
  by (auto simp: Increment_call_def read_or_present read_or_absent py_add_def)

theorem Increment_call_adds_witness:
  "get_by_path (VDict ([] :: rat dict)) [''count''] = Inl KeyError
   \<and> Increment_call example_runtime (VInt 2) [] [''count''] = Inr (VInt 2)
   \<and> float_of_int example_runtime 0 = Some 0 \<and> float_add example_runtime 0 (3 / 2) = 3 / 2
   \<and> Increment_call example_runtime (VFloat (3 / 2)) [] [''count''] = Inr (VFloat (3 / 2))
   \<and> get_by_path (VDict [(''count'', VInt 1 :: rat val)]) [''count''] = Inr (VInt 1)
   \<and> Increment_call example_runtime (VInt 2) [(''count'', VInt 1)] [''count''] = Inr (VInt 3)
   \<and> isinstance_int_float (VInt 1 :: rat val) \<and> isinstance_int_float (VFloat (1 / 2) :: rat val)
   \<and> py_add example_runtime (VInt 1) (VFloat (1 / 2)) = Inr (VFloat (3 / 2))
   \<and> isinstance_float (VFloat (3 / 2) :: rat val)
   \<and> py_add (example_runtime\<lparr>float_of_int := (\<lambda>i. None)\<rparr>) (VInt 1) (VFloat (1 / 2))
       = Inl OverflowError"
  using Increment_call_adds [of "[]" "[''count'']" KeyError example_runtime 2 True 0 "3 / 2"
      "VInt 1" "VInt 2" 1 "VFloat (3 / 2)" OverflowError]
    Increment_call_adds [of "[(''count'', VInt 1)]" "[''count'']" KeyError example_runtime 2 True 0 "3 / 2"
      "VInt 1" "VFloat (1 / 2)" 1 "VFloat (3 / 2)" OverflowError]
    Increment_call_adds [of "[(''count'', VInt 1)]" "[''count'']" KeyError
      "example_runtime\<lparr>float_of_int := (\<lambda>i. None)\<rparr>" 2 True 0 "3 / 2"
      "VInt 1" "VFloat (1 / 2)" 1 "VFloat (3 / 2)" OverflowError]
  by (simp add: example_runtime_def py_add_def)

text \<open>
  C2. When the document holds a list at the path, \<^verbatim>\<open>ArrayUnion(values)\<close> returns that list
  followed by \<open>values\<close>, all of them, whether they occur in the list already or not, so
  the length grows by the length of \<open>values\<close>; when the path is absent it returns
  \<open>values\<close>.
\<close>

theorem ArrayUnion_call_appends:
  "(get_by_path (VDict D) P = Inr (VList current) \<longrightarrow>
      ArrayUnion_call rt values D P = Inr (VList (current @ values))
    \<and> length (current @ values) = length current + length values)
   \<and> (get_by_path (VDict D) P = Inl e \<longrightarrow> ArrayUnion_call rt values D P = Inr (VList values))"
  by (simp add: ArrayUnion_call_def read_or_present read_or_absent py_add_lists)

theorem ArrayUnion_call_appends_witness:
  "get_by_path (VDict [(''tags'', VList [VStr ''a'', VStr ''b''] :: rat val)]) [''tags'']
     = Inr (VList [VStr ''a'', VStr ''b''])
   \<and> ArrayUnion_call example_runtime [VStr ''b'', VStr ''c''] [(''tags'', VList [VStr ''a'', VStr ''b''])] [''tags'']
     = Inr (VList [VStr ''a'', VStr ''b'', VStr ''b'', VStr ''c''])
   \<and> get_by_path (VDict ([] :: rat dict)) [''tags''] = Inl KeyError
   \<and> ArrayUnion_call example_runtime [VStr ''b'', VStr ''c''] [] [''tags'']
     = Inr (VList [VStr ''b'', VStr ''c''])"
  using ArrayUnion_call_appends [of "[(''tags'', VList [VStr ''a'', VStr ''b''])]" "[''tags'']"
      "[VStr ''a'', VStr ''b'']" example_runtime "[VStr ''b'', VStr ''c'']" KeyError]
    ArrayUnion_call_appends [of "[]" "[''tags'']" "[]" example_runtime "[VStr ''b'', VStr ''c'']" KeyError]
  by simp

text \<open>
  C4, as the code has it. The claim says that a current value that is not numeric is
  overwritten with \<open>n\<close>. The specification lists booleans apart from integers and floats,
  but the guard of lines 114 and 131 is \<^verbatim>\<open>isinstance(item, (float, int))\<close>, and in Python a
  boolean is an instance of \<^verbatim>\<open>int\<close>: a boolean current value is compared with the operand
  as the integer 1 or 0. On \<^verbatim>\<open>{"p": True}\<close> the call of \<^verbatim>\<open>Minimum(5)\<close> returns \<^verbatim>\<open>True\<close>, not
  5, and the call of \<^verbatim>\<open>Maximum(0)\<close> returns \<^verbatim>\<open>True\<close>, not 0.
\<close>

theorem boolean_current_value_is_compared:
  "get_by_path (VDict [(''p'', VBool True :: rat val)]) [''p''] = Inr (VBool True)
   \<and> Minimum_call example_runtime (VInt 5) [(''p'', VBool True)] [''p''] = Inr (VBool True)
   \<and> Maximum_call example_runtime (VInt 0) [(''p'', VBool True)] [''p''] = Inr (VBool True)"
  by (simp add: Minimum_call_def Maximum_call_def py_min_def py_max_def)

text \<open>
  C4, amended. When the document holds at the path a value \<open>c\<close> that is an instance of
  \<^verbatim>\<open>int\<close> or \<^verbatim>\<open>float\<close>, a boolean included, \<^verbatim>\<open>Maximum(n)\<close> returns Python's
  \<^verbatim>\<open>max(c, n)\<close> and \<^verbatim>\<open>Minimum(n)\<close> returns \<^verbatim>\<open>min(c, n)\<close>: the greater and the smaller
  integer for two integers; in general \<open>n\<close> when \<open>c < n\<close> (for the minimum, when
  \<open>n < c\<close>) and \<open>c\<close> otherwise, where a boolean counts as 1 or 0 and is returned as
  the boolean it is. When the value at the path is of any other kind (\<^verbatim>\<open>None\<close>, a string,
  a list, a tuple, a mapping, an instruction), or the path is absent, both return \<open>n\<close>.
\<close>

theorem Maximum_Minimum_call_bound:
  "(get_by_path (VDict D) P = Inr c \<and> isinstance_int_float c \<longrightarrow>
      Maximum_call rt v D P = py_max rt c v \<and> Minimum_call rt v D P = py_min rt c v)
   \<and> (get_by_path (VDict D) P = Inr (VInt i) \<longrightarrow>
      Maximum_call rt (VInt n) D P = Inr (VInt (max i n))
    \<and> Minimum_call rt (VInt n) D P = Inr (VInt (min i n)))
   \<and> (get_by_path (VDict D) P = Inr c \<and> \<not> isinstance_int_float c \<longrightarrow>
      Maximum_call rt v D P = Inr v \<and> Minimum_call rt v D P = Inr v)
   \<and> (get_by_path (VDict D) P = Inl e \<longrightarrow>
      Maximum_call rt v D P = Inr v \<and> Minimum_call rt v D P = Inr v)
   \<and> (get_by_path (VDict D) P = Inr c \<and> to_num c = Some x \<and> to_num v = Some y \<longrightarrow>
      Maximum_call rt v D P = Inr (if num_lt rt x y then v else c)
    \<and> Minimum_call rt v D P = Inr (if num_lt rt y x then v else c))
   \<and> (get_by_path (VDict D) P = Inr (VBool b) \<longrightarrow>
      Maximum_call rt (VInt n) D P = Inr (if (if b then 1 else 0) < n then VInt n else VBool b)
    \<and> Minimum_call rt (VInt n) D P = Inr (if n < (if b then 1 else 0) then VInt n else VBool b))
   \<and> (isinstance_int_float c \<longleftrightarrow>
        (\<exists>b. c = VBool b) \<or> (\<exists>i. c = VInt i) \<or> (\<exists>f. c = VFloat f))"
proof -
  have kinds: "isinstance_int_float c \<longleftrightarrow>
      (\<exists>b. c = VBool b) \<or> (\<exists>i. c = VInt i) \<or> (\<exists>f. c = VFloat f)"
    by (cases c) simp_all
  have rest: "(get_by_path (VDict D) P = Inr c \<and> isinstance_int_float c \<longrightarrow>
      Maximum_call rt v D P = py_max rt c v \<and> Minimum_call rt v D P = py_min rt c v)
   \<and> (get_by_path (VDict D) P = Inr (VInt i) \<longrightarrow>
      Maximum_call rt (VInt n) D P = Inr (VInt (max i n))
    \<and> Minimum_call rt (VInt n) D P = Inr (VInt (min i n)))
   \<and> (get_by_path (VDict D) P = Inr c \<and> \<not> isinstance_int_float c \<longrightarrow>
      Maximum_call rt v D P = Inr v \<and> Minimum_call rt v D P = Inr v)
   \<and> (get_by_path (VDict D) P = Inl e \<longrightarrow>
      Maximum_call rt v D P = Inr v \<and> Minimum_call rt v D P = Inr v)
   \<and> (get_by_path (VDict D) P = Inr c \<and> to_num c = Some x \<and> to_num v = Some y \<longrightarrow>
      Maximum_call rt v D P = Inr (if num_lt rt x y then v else c)
    \<and> Minimum_call rt v D P = Inr (if num_lt rt y x then v else c))
   \<and> (get_by_path (VDict D) P = Inr (VBool b) \<longrightarrow>
      Maximum_call rt (VInt n) D P = Inr (if (if b then 1 else 0) < n then VInt n else VBool b)
    \<and> Minimum_call rt (VInt n) D P = Inr (if n < (if b then 1 else 0) then VInt n else VBool b))"
    using to_num_isinstance [of c x]
    by (simp add: Maximum_call_def Minimum_call_def get_by_path_caught py_max_ints py_min_ints
        py_max_def py_min_def)
  from rest kinds show ?thesis by blast
qed

theorem Maximum_Minimum_call_bound_witness:
  "get_by_path (VDict [(''n'', VInt 7 :: rat val), (''s'', VStr ''seven'')]) [''n''] = Inr (VInt 7)
   \<and> Maximum_call example_runtime (VInt 5) [(''n'', VInt 7), (''s'', VStr ''seven'')] [''n''] = Inr (VInt 7)
   \<and> Minimum_call example_runtime (VInt 5) [(''n'', VInt 7), (''s'', VStr ''seven'')] [''n''] = Inr (VInt 5)
   \<and> get_by_path (VDict [(''n'', VInt 7 :: rat val), (''s'', VStr ''seven'')]) [''s''] = Inr (VStr ''seven'')
   \<and> \<not> isinstance_int_float (VStr ''seven'' :: rat val)
   \<and> Maximum_call example_runtime (VInt 5) [(''n'', VInt 7), (''s'', VStr ''seven'')] [''s''] = Inr (VInt 5)
   \<and> Minimum_call example_runtime (VInt 5) [(''n'', VInt 7), (''s'', VStr ''seven'')] [''s''] = Inr (VInt 5)
   \<and> get_by_path (VDict [(''n'', VInt 7 :: rat val), (''s'', VStr ''seven'')]) [''m''] = Inl KeyError
   \<and> Maximum_call example_runtime (VInt 5) [(''n'', VInt 7), (''s'', VStr ''seven'')] [''m''] = Inr (VInt 5)
   \<and> Minimum_call example_runtime (VInt 5) [(''n'', VInt 7), (''s'', VStr ''seven'')] [''m''] = Inr (VInt 5)
   \<and> to_num (VInt 7 :: rat val) = Some (NInt 7) \<and> to_num (VInt 5 :: rat val) = Some (NInt 5)
   \<and> \<not> num_lt example_runtime (NInt 7) (NInt 5) \<and> num_lt example_runtime (NInt 5) (NInt 7)
   \<and> get_by_path (VDict [(''p'', VBool True :: rat val)]) [''p''] = Inr (VBool True)
   \<and> Maximum_call example_runtime (VInt 5) [(''p'', VBool True)] [''p''] = Inr (VInt 5)
   \<and> Minimum_call example_runtime (VInt 5) [(''p'', VBool True)] [''p''] = Inr (VBool True)"
  using Maximum_Minimum_call_bound [of "[(''n'', VInt 7), (''s'', VStr ''seven'')]" "[''n'']" "VInt 7"
      example_runtime "VInt 5" 7 5 KeyError "NInt 7" "NInt 5" True]
    Maximum_Minimum_call_bound [of "[(''n'', VInt 7), (''s'', VStr ''seven'')]" "[''s'']" "VStr ''seven''"
      example_runtime "VInt 5" 7 5 KeyError "NInt 7" "NInt 5" True]
    Maximum_Minimum_call_bound [of "[(''n'', VInt 7), (''s'', VStr ''seven'')]" "[''m'']" "VStr ''seven''"
      example_runtime "VInt 5" 7 5 KeyError "NInt 7" "NInt 5" True]
    Maximum_Minimum_call_bound [of "[(''p'', VBool True)]" "[''p'']" "VBool True"
      example_runtime "VInt 5" 7 5 KeyError "NInt 1" "NInt 5" True]
  by (simp add: py_max_ints py_min_ints py_max_def py_min_def)

text \<open>
  C6, as the code has it. The claim says that a non-mapping value met on the way to the
  target path in the document aborts the merge. It does not: the handlers of lines 48,
  62, 98, 112, 129 and 173 catch \<^verbatim>\<open>TypeError\<close> together with \<^verbatim>\<open>KeyError\<close>. In the document
  below the segment \<^verbatim>\<open>a\<close> holds the integer 5, the read of \<^verbatim>\<open>a.b\<close> raises \<^verbatim>\<open>TypeError\<close>,
  and the merge completes with the increment applied to the default 0.
\<close>

theorem merge_survives_non_mapping_segment:
  "get_by_path (VDict [(''a'', VInt 5 :: rat val)]) [''a'', ''b''] = Inl TypeError
   \<and> apply_transformations example_runtime [(''a'', VInt 5)]
        [(''a'', VDict [(''b'', VTrans (Increment (VInt 1)))])]
      = Inr ([(''a'', VDict [(''b'', VInt 1)])], [(''a'', VDict [(''b'', VInt 1)])])"
  by code_simp

text \<open>
  C6, amended. When the read of the target path in the document meets a value that is not
  a mapping, every variant returns what it returns on the empty document, where the path
  is absent, and the second pass of the engine reads its default: the error is recovered
  as the absent-path default and is not propagated.
\<close>

theorem read_type_error_is_recovered:
  "get_by_path (VDict D) P = Inl TypeError \<Longrightarrow>
     transform_call (rt :: 'f runtime) t D P = transform_call rt t [] P
   \<and> get_by_path (VDict ([] :: 'f dict)) P = Inl KeyError
   \<and> read_or dflt D P = Inr dflt"
proof -
  assume err: "get_by_path (VDict D) P = Inl TypeError"
  then obtain k ks where P: "P = k # ks"
    by (cases P) auto
  have absent: "get_by_path (VDict ([] :: 'f dict)) P = Inl KeyError"
    by (simp add: P)
  have r1: "\<And>d. read_or d D P = Inr d"
    using err by (rule read_or_absent)
  have r2: "\<And>d. read_or d ([] :: 'f dict) P = Inr d"
    using absent by (rule read_or_absent)
  have "transform_call rt t D P = transform_call rt t [] P"
    by (cases t)
      (simp_all add: ArrayUnion_call_def ArrayRemove_call_def Increment_call_def
        Maximum_call_def Minimum_call_def r1 r2 err absent caught_def)
  with absent r1 show ?thesis by simp
qed

theorem read_type_error_is_recovered_witness:
  "get_by_path (VDict [(''a'', VInt 5 :: rat val)]) [''a'', ''b''] = Inl TypeError
   \<and> transform_call example_runtime (Increment (VInt 1)) [(''a'', VInt 5)] [''a'', ''b''] = Inr (VInt 1)
   \<and> read_or (VInt 0) [(''a'', VInt 5 :: rat val)] [''a'', ''b''] = Inr (VInt 0)"
proof -
  have h: "get_by_path (VDict [(''a'', VInt 5 :: rat val)]) [''a'', ''b''] = Inl TypeError"
    by simp
  show ?thesis
    using h read_type_error_is_recovered [OF h, of example_runtime "Increment (VInt 1)" "VInt 0"]
    by (simp add: Increment_call_def read_or_def caught_def py_add_def)
qed

section \<open>Properties of the engine\<close>

subsection \<open>The second pass\<close>

lemma second_pass_idle:
  "\<forall>kv \<in> set nv. settled rt doc dflt data kv \<Longrightarrow>
     update_data_with_firestore_transforms rt doc nv dflt data = Inr data"
proof (induction nv)
  case Nil
  then show ?case by simp
next
  case (Cons kv nv)
  obtain k n where kv: "kv = (k, n)" by (cases kv)
  from Cons.prems kv have s: "settled rt doc dflt data (k, n)" by simp
  then obtain item v where r: "read_or dflt doc (split_dot k) = Inr item"
    and a: "py_add rt item n = Inr v"
    and g: "get_by_path (VDict data) (split_dot k) = Inr v"
    by (auto simp: settled_def split: sum.splits)
  from g have w: "set_by_path data (split_dot k) v = Inr data"
    by (rule set_same_value) (rule split_dot_nonempty)
  from Cons show ?case
    by (simp add: kv r a w)
qed

lemma settled_frame:
  assumes "settled rt doc dflt data kv"
    and "set_by_path data q w = Inr data'"
    and "\<not> prefix q (split_dot (fst kv))" and "\<not> prefix (split_dot (fst kv)) q"
  shows "settled rt doc dflt data' kv"
  using assms(1) get_frame [OF assms(2,3,4)]
  by (auto simp: settled_def split: sum.splits)

lemma classify_entries:
  "classify key value aux = aux' \<Longrightarrow>
     set (fst aux') \<union> set (snd aux') \<subseteq> set (fst aux) \<union> set (snd aux) \<union> {kv. fst kv = key}"
proof (induction key "value" aux rule: classify.induct)
  case (1 key v increments arr_unions)
  then show ?case using dict_set_subset [of increments key v] by auto
next
  case (2 key "values" increments arr_unions)
  then show ?case using dict_set_subset [of arr_unions key "VList values"] by auto
qed auto

lemma classify_not_transform:
  "\<forall>t. value \<noteq> VTrans t \<Longrightarrow> classify key value aux = aux"
  by (cases "value") auto

lemma transform_paths_not_transform:
  "\<forall>t. value \<noteq> VTrans t \<Longrightarrow> transform_paths ((key, value) # rest) = transform_paths rest"
  by (cases "value") auto

lemma write_transform_not_transform:
  "\<forall>t. value \<noteq> VTrans t \<Longrightarrow> write_transform rt doc data path value = Inr data"
  by (cases "value") auto

lemma classify_settled:
  assumes call: "transform_call rt t doc (split_dot key) = Inr v"
    and get: "get_by_path (VDict data') (split_dot key) = Inr v"
    and old1: "\<forall>kv \<in> set (fst aux). settled rt doc (VInt 0) data' kv"
    and old2: "\<forall>kv \<in> set (snd aux). settled rt doc (VList []) data' kv"
  shows "(\<forall>kv \<in> set (fst (classify key (VTrans t) aux)). settled rt doc (VInt 0) data' kv)
       \<and> (\<forall>kv \<in> set (snd (classify key (VTrans t) aux)). settled rt doc (VList []) data' kv)"
proof -
  obtain incs unions where aux: "aux = (incs, unions)" by (cases aux)
  show ?thesis
  proof (cases t)
    case (Increment n)
    from call Increment have "settled rt doc (VInt 0) data' (key, n)"
      using get by (auto simp: settled_def Increment_call_def split: sum.splits)
    with old1 old2 aux Increment show ?thesis
      using dict_set_subset [of incs key n] by auto
  next
    case (ArrayUnion vs)
    from call ArrayUnion have "settled rt doc (VList []) data' (key, VList vs)"
      using get by (auto simp: settled_def ArrayUnion_call_def split: sum.splits)
    with old1 old2 aux ArrayUnion show ?thesis
      using dict_set_subset [of unions key "VList vs"] by auto
  qed (use old1 old2 aux in auto)
qed

text \<open>
  The invariant of the loop: every operand recorded so far is settled in the payload. A
  later write keeps it so, because its path is independent of the recorded ones.
\<close>

lemma loop_settles:
  "transform_loop rt doc items data aux = Inr (data', aux') \<Longrightarrow>
   independent_paths (transform_paths items) \<Longrightarrow>
   \<forall>q \<in> set (transform_paths items). \<forall>kv \<in> set (fst aux) \<union> set (snd aux).
      \<not> prefix q (split_dot (fst kv)) \<and> \<not> prefix (split_dot (fst kv)) q \<Longrightarrow>
   \<forall>kv \<in> set (fst aux). settled rt doc (VInt 0) data kv \<Longrightarrow>
   \<forall>kv \<in> set (snd aux). settled rt doc (VList []) data kv \<Longrightarrow>
   (\<forall>kv \<in> set (fst aux'). settled rt doc (VInt 0) data' kv)
   \<and> (\<forall>kv \<in> set (snd aux'). settled rt doc (VList []) data' kv)"
proof (induction items arbitrary: data aux)
  case Nil
  then show ?case by simp
next
  case (Cons item rest)
  obtain key "value" where item: "item = (key, value)" by (cases item)
  show ?case
  proof (cases "\<exists>t. value = VTrans t")
    case False
    then have nt: "\<forall>t. value \<noteq> VTrans t" by simp
    from Cons.prems(1) have loop: "transform_loop rt doc rest data aux = Inr (data', aux')"
      by (simp add: item write_transform_not_transform [OF nt] classify_not_transform [OF nt])
    from Cons.prems(2,3) have "independent_paths (transform_paths rest)"
      and "\<forall>q \<in> set (transform_paths rest). \<forall>kv \<in> set (fst aux) \<union> set (snd aux).
        \<not> prefix q (split_dot (fst kv)) \<and> \<not> prefix (split_dot (fst kv)) q"
      by (simp_all add: item transform_paths_not_transform [OF nt])
    from Cons.IH [OF loop this Cons.prems(4,5)] show ?thesis .
  next
    case True
    then obtain t where t: "value = VTrans t" by blast
    let ?p = "split_dot key"
    let ?aux1 = "classify key (VTrans t) aux"
    from Cons.prems(1) obtain v data1 where call: "transform_call rt t doc ?p = Inr v"
      and wr: "set_by_path data ?p v = Inr data1"
      and loop: "transform_loop rt doc rest data1 ?aux1 = Inr (data', aux')"
      by (auto simp: item t split: sum.splits)
    from Cons.prems(2) have indep_rest: "independent_paths (transform_paths rest)"
      and head: "\<forall>q \<in> set (transform_paths rest). \<not> prefix ?p q \<and> \<not> prefix q ?p"
      by (simp_all add: item t list_all_iff)
    from Cons.prems(3) have old_p: "\<forall>kv \<in> set (fst aux) \<union> set (snd aux).
        \<not> prefix ?p (split_dot (fst kv)) \<and> \<not> prefix (split_dot (fst kv)) ?p"
      and old_rest: "\<forall>q \<in> set (transform_paths rest). \<forall>kv \<in> set (fst aux) \<union> set (snd aux).
        \<not> prefix q (split_dot (fst kv)) \<and> \<not> prefix (split_dot (fst kv)) q"
      by (simp_all add: item t)
    have s1: "\<forall>kv \<in> set (fst aux). settled rt doc (VInt 0) data1 kv"
      using Cons.prems(4) old_p settled_frame [OF _ wr] by blast
    have s2: "\<forall>kv \<in> set (snd aux). settled rt doc (VList []) data1 kv"
      using Cons.prems(5) old_p settled_frame [OF _ wr] by blast
    have got: "get_by_path (VDict data1) ?p = Inr v"
      using wr by (rule get_after_set)
    from classify_settled [OF call got s1 s2]
    have n1: "\<forall>kv \<in> set (fst ?aux1). settled rt doc (VInt 0) data1 kv"
      and n2: "\<forall>kv \<in> set (snd ?aux1). settled rt doc (VList []) data1 kv"
      by simp_all
    have entries: "set (fst ?aux1) \<union> set (snd ?aux1)
        \<subseteq> set (fst aux) \<union> set (snd aux) \<union> {kv. fst kv = key}"
      by (rule classify_entries) simp
    have sep: "\<forall>q \<in> set (transform_paths rest). \<forall>kv \<in> set (fst ?aux1) \<union> set (snd ?aux1).
        \<not> prefix q (split_dot (fst kv)) \<and> \<not> prefix (split_dot (fst kv)) q"
    proof (intro ballI)
      fix q kv
      assume q: "q \<in> set (transform_paths rest)"
        and kv: "kv \<in> set (fst ?aux1) \<union> set (snd ?aux1)"
      from kv entries have "kv \<in> set (fst aux) \<union> set (snd aux) \<or> fst kv = key" by blast
      then show "\<not> prefix q (split_dot (fst kv)) \<and> \<not> prefix (split_dot (fst kv)) q"
      proof
        assume "kv \<in> set (fst aux) \<union> set (snd aux)"
        with old_rest q show ?thesis by blast
      next
        assume "fst kv = key"
        with head q show ?thesis by simp
      qed
    qed
    from Cons.IH [OF loop indep_rest sep n1 n2] show ?thesis .
  qed
qed

text \<open>
  C5, as the code has it. The claim says that for every payload the engine with its second
  pass is observably the single-pass engine. It is not when two instructions address the
  same path: below, the nested key writes the increment at \<^verbatim>\<open>a.b\<close>, the dotted key then
  writes the maximum 5 there, and the second pass writes the increment again, so the
  engine ends with 1 where the single-pass engine ends with 5.
\<close>

theorem second_pass_overrides_later_write:
  "apply_transformations example_runtime []
      [(''a'', VDict [(''b'', VTrans (Increment (VInt 1)))]), (''a.b'', VTrans (Maximum (VInt 5)))]
     = Inr ([(''a'', VDict [(''b'', VInt 1)]), (''a.b'', VTrans (Maximum (VInt 5)))],
            [(''a'', VDict [(''b'', VInt 1)]), (''a.b'', VTrans (Maximum (VInt 5)))])
   \<and> single_pass_merge example_runtime []
      [(''a'', VDict [(''b'', VTrans (Increment (VInt 1)))]), (''a.b'', VTrans (Maximum (VInt 5)))]
     = Inr ([(''a'', VDict [(''b'', VInt 5)]), (''a.b'', VTrans (Maximum (VInt 5)))],
            [(''a'', VDict [(''b'', VInt 5)]), (''a.b'', VTrans (Maximum (VInt 5)))])
   \<and> apply_transformations example_runtime []
      [(''a'', VDict [(''b'', VTrans (Increment (VInt 1)))]), (''a.b'', VTrans (Maximum (VInt 5)))]
     \<noteq> single_pass_merge example_runtime []
      [(''a'', VDict [(''b'', VTrans (Increment (VInt 1)))]), (''a.b'', VTrans (Maximum (VInt 5)))]"
  by code_simp

text \<open>
  C5, amended. When the paths of the instructions in the flattened payload are
  independent (no path occurs twice and none is a prefix of another), the second pass
  assigns at every Increment and ArrayUnion path the value that the payload already
  holds there after the first pass, both of its runs leave the payload as it is, and the
  engine returns exactly what the single-pass engine returns, an exception included.
\<close>

theorem second_pass_redundant_on_independent_paths:
  assumes "independent_paths (transform_paths (get_document_iterator data))"
  shows "apply_transformations rt document data = single_pass_merge rt document data
    \<and> (\<forall>data1 increments arr_unions.
         transform_loop rt document (get_document_iterator data) data ([], [])
           = Inr (data1, increments, arr_unions) \<longrightarrow>
         update_data_with_firestore_transforms rt document increments (VInt 0) data1 = Inr data1
       \<and> update_data_with_firestore_transforms rt document arr_unions (VList []) data1 = Inr data1)"
proof -
  have idle: "update_data_with_firestore_transforms rt document increments (VInt 0) data1 = Inr data1
       \<and> update_data_with_firestore_transforms rt document arr_unions (VList []) data1 = Inr data1"
    if loop: "transform_loop rt document (get_document_iterator data) data ([], [])
           = Inr (data1, increments, arr_unions)" for data1 increments arr_unions
  proof -
    from loop_settles [OF loop assms]
    have "\<forall>kv \<in> set increments. settled rt document (VInt 0) data1 kv"
      and "\<forall>kv \<in> set arr_unions. settled rt document (VList []) data1 kv"
      by simp_all
    then show ?thesis by (simp add: second_pass_idle)
  qed
  have "apply_transformations rt document data = single_pass_merge rt document data"
  proof (cases "transform_loop rt document (get_document_iterator data) data ([], [])")
    case (Inl e)
    then show ?thesis by (simp add: apply_transformations_def single_pass_merge_def)
  next
    case (Inr st)
    obtain data1 increments arr_unions where st: "st = (data1, increments, arr_unions)"
      by (cases st)
    from idle [OF Inr [unfolded st]] Inr st show ?thesis
      by (simp add: apply_transformations_def single_pass_merge_def)
  qed
  with idle show ?thesis by blast
qed

theorem second_pass_redundant_on_independent_paths_witness:
  "independent_paths (transform_paths (get_document_iterator
      [(''count'', VTrans (Increment (VInt 2))), (''tags'', VTrans (ArrayUnion [VStr ''y'' :: rat val]))]))
   \<and> apply_transformations example_runtime
        [(''count'', VInt 1), (''tags'', VList [VStr ''x''])]
        [(''count'', VTrans (Increment (VInt 2))), (''tags'', VTrans (ArrayUnion [VStr ''y'']))]
     = single_pass_merge example_runtime
        [(''count'', VInt 1), (''tags'', VList [VStr ''x''])]
        [(''count'', VTrans (Increment (VInt 2))), (''tags'', VTrans (ArrayUnion [VStr ''y'']))]
   \<and> single_pass_merge example_runtime
        [(''count'', VInt 1), (''tags'', VList [VStr ''x''])]
        [(''count'', VTrans (Increment (VInt 2))), (''tags'', VTrans (ArrayUnion [VStr ''y'']))]
     = Inr ([(''count'', VInt 3), (''tags'', VList [VStr ''x'', VStr ''y''])],
            [(''count'', VInt 3), (''tags'', VList [VStr ''x'', VStr ''y''])])"
proof -
  have h: "independent_paths (transform_paths (get_document_iterator
      [(''count'', VTrans (Increment (VInt 2))), (''tags'', VTrans (ArrayUnion [VStr ''y'' :: rat val]))]))"
    by code_simp
  have e: "single_pass_merge example_runtime
        [(''count'', VInt 1), (''tags'', VList [VStr ''x''])]
        [(''count'', VTrans (Increment (VInt 2))), (''tags'', VTrans (ArrayUnion [VStr ''y'']))]
     = Inr ([(''count'', VInt 3), (''tags'', VList [VStr ''x'', VStr ''y''])],
            [(''count'', VInt 3), (''tags'', VList [VStr ''x'', VStr ''y''])])"
    by code_simp
  from second_pass_redundant_on_independent_paths [OF h, of example_runtime
      "[(''count'', VInt 1), (''tags'', VList [VStr ''x''])]"] h e
  show ?thesis by blast
qed

subsection \<open>Dotted keys\<close>

text \<open>
  C8. The claim says that merging \<^verbatim>\<open>{"a.b": Maximum(5)}\<close> into the empty document yields
  exactly \<^verbatim>\<open>{"a": {"b": 5}}\<close>. The engine writes 5 at the nested path but never removes
  the dotted key from the payload, so the merged document has two keys: \<^verbatim>\<open>a.b\<close>, still
  holding the instruction, and \<^verbatim>\<open>a\<close>. The same instruction given in nested form,
  \<^verbatim>\<open>{"a": {"b": Maximum(5)}}\<close>, does yield exactly \<^verbatim>\<open>{"a": {"b": 5}}\<close>.
\<close>

theorem dotted_key_stays_in_document:
  "apply_transformations rt [] [(''a.b'', VTrans (Maximum (VInt 5)))]
     = Inr ([(''a.b'', VTrans (Maximum (VInt 5))), (''a'', VDict [(''b'', VInt 5)])],
            [(''a.b'', VTrans (Maximum (VInt 5))), (''a'', VDict [(''b'', VInt 5)])])
   \<and> apply_transformations rt [] [(''a'', VDict [(''b'', VTrans (Maximum (VInt 5)))])]
     = Inr ([(''a'', VDict [(''b'', VInt 5)])], [(''a'', VDict [(''b'', VInt 5)])])"
  by (simp add: apply_transformations_def get_document_iterator_def Maximum_call_def
      caught_def dict_update_def)

subsection \<open>Repeating a merge\<close>

lemma merge_ArrayUnion_plain_key:
  assumes "CHR ''.'' \<notin> set k" and "map_of document k = Some (VList current)"
  shows "apply_transformations rt document [(k, VTrans (ArrayUnion values))]
     = Inr (dict_set document k (VList (current @ values)), [(k, VList (current @ values))])"
  using assms
  by (simp add: apply_transformations_def get_document_iterator_def split_dot_plain
      ArrayUnion_call_def read_or_def py_add_lists dict_update_def)

text \<open>
  C9. Merging the same \<^verbatim>\<open>ArrayUnion\<close> instruction twice is not idempotent. For a key
  without a dot under which the document holds a list, and a non-empty operand, the first
  merge stores the list followed by the operand and the second merge, given the same
  instruction on the resulting document, stores that followed by the operand once more:
  the two documents differ and the length grows by the length of the operand each time.
\<close>

theorem ArrayUnion_merge_not_idempotent:
  assumes "CHR ''.'' \<notin> set k" and "map_of document k = Some (VList current)"
    and "values \<noteq> []"
  shows "\<exists>doc1 data1 doc2 data2.
      apply_transformations rt document [(k, VTrans (ArrayUnion values))] = Inr (doc1, data1)
    \<and> apply_transformations rt doc1 [(k, VTrans (ArrayUnion values))] = Inr (doc2, data2)
    \<and> map_of doc1 k = Some (VList (current @ values))
    \<and> map_of doc2 k = Some (VList (current @ values @ values))
    \<and> doc2 \<noteq> doc1
    \<and> length (current @ values @ values) = length (current @ values) + length values"
proof -
  let ?doc1 = "dict_set document k (VList (current @ values))"
  let ?doc2 = "dict_set ?doc1 k (VList ((current @ values) @ values))"
  have m1: "map_of ?doc1 k = Some (VList (current @ values))"
    by (simp add: map_of_dict_set)
  have first: "apply_transformations rt document [(k, VTrans (ArrayUnion values))]
      = Inr (?doc1, [(k, VList (current @ values))])"
    using assms(1,2) by (rule merge_ArrayUnion_plain_key)
  have second: "apply_transformations rt ?doc1 [(k, VTrans (ArrayUnion values))]
      = Inr (?doc2, [(k, VList ((current @ values) @ values))])"
    using assms(1) m1 by (rule merge_ArrayUnion_plain_key)
  have m2: "map_of ?doc2 k = Some (VList (current @ values @ values))"
    by (simp add: map_of_dict_set)
  have "?doc2 \<noteq> ?doc1"
  proof
    assume "?doc2 = ?doc1"
    then have "map_of ?doc2 k = map_of ?doc1 k" by simp
    with m1 m2 assms(3) show False by simp
  qed
  with first second m1 m2 show ?thesis by simp
qed

theorem ArrayUnion_merge_not_idempotent_witness:
  "CHR ''.'' \<notin> set ''tags''
   \<and> map_of [(''tags'', VList [VStr ''x'' :: rat val])] ''tags'' = Some (VList [VStr ''x''])
   \<and> [VStr ''y'' :: rat val] \<noteq> []
   \<and> (\<exists>doc1 data1 doc2 data2.
      apply_transformations example_runtime [(''tags'', VList [VStr ''x''])]
          [(''tags'', VTrans (ArrayUnion [VStr ''y'']))] = Inr (doc1, data1)
    \<and> apply_transformations example_runtime doc1 [(''tags'', VTrans (ArrayUnion [VStr ''y'']))]
          = Inr (doc2, data2)
    \<and> map_of doc1 ''tags'' = Some (VList [VStr ''x'', VStr ''y''])
    \<and> map_of doc2 ''tags'' = Some (VList [VStr ''x'', VStr ''y'', VStr ''y''])
    \<and> doc2 \<noteq> doc1)"
proof -
  have h1: "CHR ''.'' \<notin> set ''tags''" by simp
  have h2: "map_of [(''tags'', VList [VStr ''x'' :: rat val])] ''tags'' = Some (VList [VStr ''x''])"
    by simp
  have h3: "[VStr ''y'' :: rat val] \<noteq> []" by simp
  from ArrayUnion_merge_not_idempotent [OF h1 h2 h3, of example_runtime] h1 h2 h3
  show ?thesis by simp
qed

section \<open>Properties of \<^verbatim>\<open>ArrayRemove\<close>\<close>

subsection \<open>Sets as duplicate-free lists\<close>

lemma py_mem_iff: "py_mem rt x xs \<longleftrightarrow> (\<exists>y \<in> set xs. py_eq rt x y)"
  by (simp add: py_mem_def list_ex_iff)

lemma py_count_pos: "0 < py_count rt x xs \<longleftrightarrow> py_mem rt x xs"
  by (auto simp: py_count_def py_mem_iff filter_empty_conv)

lemma py_count_snoc:
  "py_count rt x (s @ [a]) = py_count rt x s + (if py_eq rt x a then 1 else 0)"
  by (simp add: py_count_def)

lemma py_equivalence_sym:
  "py_equivalence rt A \<Longrightarrow> x \<in> A \<Longrightarrow> y \<in> A \<Longrightarrow> py_eq rt x y \<Longrightarrow> py_eq rt y x"
  unfolding py_equivalence_def by blast

lemma py_equivalence_trans:
  "py_equivalence rt A \<Longrightarrow> x \<in> A \<Longrightarrow> y \<in> A \<Longrightarrow> z \<in> A \<Longrightarrow>
     py_eq rt x y \<Longrightarrow> py_eq rt y z \<Longrightarrow> py_eq rt x z"
  unfolding py_equivalence_def by blast

lemma py_equivalence_refl: "py_equivalence rt A \<Longrightarrow> x \<in> A \<Longrightarrow> py_eq rt x x"
  unfolding py_equivalence_def by blast

text \<open>
  Python's \<^verbatim>\<open>==\<close> is an equivalence on every collection of values without floats and
  tuples: integers and booleans compare by their integer value, every other value with
  itself only.
\<close>

lemma py_eq_without_floats:
  assumes "\<not> isinstance_float a" "\<not> isinstance_float b"
    and "\<forall>xs. a \<noteq> VTuple xs" "\<forall>xs. b \<noteq> VTuple xs"
  shows "py_eq rt a b \<longleftrightarrow> to_num a = to_num b \<and> (to_num a = None \<longrightarrow> a = b)"
  using assms by (cases a; cases b) simp_all

lemma py_equivalence_without_floats:
  assumes A: "\<forall>x \<in> A. \<not> isinstance_float x \<and> (\<forall>xs. x \<noteq> VTuple xs)"
  shows "py_equivalence rt A"
proof -
  have eq: "py_eq rt x y \<longleftrightarrow> to_num x = to_num y \<and> (to_num x = None \<longrightarrow> x = y)"
    if "x \<in> A" "y \<in> A" for x y
    using that A by (intro py_eq_without_floats) blast+
  have "\<forall>x \<in> A. py_eq rt x x"
    by (simp add: eq)
  moreover have "\<forall>x \<in> A. \<forall>y \<in> A. py_eq rt x y \<longrightarrow> py_eq rt y x"
    using eq by metis
  moreover have "\<forall>x \<in> A. \<forall>y \<in> A. \<forall>z \<in> A. py_eq rt x y \<and> py_eq rt y z \<longrightarrow> py_eq rt x z"
    using eq by metis
  ultimately show ?thesis
    unfolding py_equivalence_def by blast
qed

lemma py_mem_transfer:
  assumes E: "py_equivalence rt A" and "x \<in> A" "y \<in> A" "set t \<subseteq> A" "py_eq rt x y"
  shows "py_mem rt x t \<longleftrightarrow> py_mem rt y t"
proof
  assume "py_mem rt x t"
  then obtain z where z: "z \<in> set t" "py_eq rt x z" by (auto simp: py_mem_iff)
  with assms have "z \<in> A" by auto
  from py_equivalence_sym [OF E assms(2,3,5)] have "py_eq rt y x" .
  from py_equivalence_trans [OF E assms(3,2) \<open>z \<in> A\<close> this z(2)] z(1)
  show "py_mem rt y t" by (auto simp: py_mem_iff)
next
  assume "py_mem rt y t"
  then obtain z where z: "z \<in> set t" "py_eq rt y z" by (auto simp: py_mem_iff)
  with assms have "z \<in> A" by auto
  from py_equivalence_trans [OF E assms(2,3) \<open>z \<in> A\<close> assms(5) z(2)] z(1)
  show "py_mem rt x t" by (auto simp: py_mem_iff)
qed

text \<open>
  \<^verbatim>\<open>set(xs)\<close> holds one representative of every element of \<open>xs\<close>: inserting an element
  keeps the counts at most one.
\<close>

lemma set_add_step:
  assumes E: "py_equivalence rt A" and acc: "set acc \<subseteq> A" and a: "a \<in> A"
    and inv: "\<forall>y \<in> A. py_count rt y acc = (if py_mem rt y acc then 1 else 0)"
  shows "set (set_add rt acc a) \<subseteq> A"
    and "set (set_add rt acc a) \<subseteq> set acc \<union> {a}"
    and "\<forall>y \<in> A. py_count rt y (set_add rt acc a) = (if py_mem rt y (set_add rt acc a) then 1 else 0)"
    and "\<forall>y \<in> A. py_mem rt y (set_add rt acc a) \<longleftrightarrow> py_mem rt y acc \<or> py_eq rt y a"
proof -
  show "set (set_add rt acc a) \<subseteq> A" using acc a by (simp add: set_add_def)
  show "set (set_add rt acc a) \<subseteq> set acc \<union> {a}" by (auto simp: set_add_def)
  show m: "\<forall>y \<in> A. py_mem rt y (set_add rt acc a) \<longleftrightarrow> py_mem rt y acc \<or> py_eq rt y a"
  proof
    fix y assume y: "y \<in> A"
    show "py_mem rt y (set_add rt acc a) \<longleftrightarrow> py_mem rt y acc \<or> py_eq rt y a"
    proof (cases "py_mem rt a acc")
      case True
      have "py_eq rt y a \<Longrightarrow> py_mem rt y acc"
        using py_mem_transfer [OF E y a acc] True by simp
      with True show ?thesis by (auto simp: set_add_def)
    next
      case False
      then show ?thesis by (auto simp: set_add_def py_mem_iff)
    qed
  qed
  show "\<forall>y \<in> A. py_count rt y (set_add rt acc a) = (if py_mem rt y (set_add rt acc a) then 1 else 0)"
  proof
    fix y assume y: "y \<in> A"
    show "py_count rt y (set_add rt acc a) = (if py_mem rt y (set_add rt acc a) then 1 else 0)"
    proof (cases "py_mem rt a acc")
      case True
      then have "set_add rt acc a = acc" by (simp add: set_add_def)
      with inv y show ?thesis by simp
    next
      case False
      then have s: "set_add rt acc a = acc @ [a]" by (simp add: set_add_def)
      show ?thesis
      proof (cases "py_eq rt y a")
        case True
        have "\<not> py_mem rt y acc"
          using py_mem_transfer [OF E y a acc True] False by simp
        with inv y True show ?thesis
          by (simp add: s py_count_snoc py_mem_iff)
      next
        case no: False
        with inv y show ?thesis
          by (simp add: s py_count_snoc py_mem_iff)
      qed
    qed
  qed
qed

lemma set_add_fold_count:
  assumes E: "py_equivalence rt A"
  shows "set acc \<subseteq> A \<Longrightarrow> set xs \<subseteq> A \<Longrightarrow>
     \<forall>y \<in> A. py_count rt y acc = (if py_mem rt y acc then 1 else 0) \<Longrightarrow>
     set (foldl (set_add rt) acc xs) \<subseteq> set acc \<union> set xs
     \<and> (\<forall>x \<in> A. py_count rt x (foldl (set_add rt) acc xs)
            = (if py_mem rt x acc \<or> py_mem rt x xs then 1 else 0))"
proof (induction xs arbitrary: acc)
  case Nil
  then show ?case by (simp add: py_mem_iff)
next
  case (Cons a xs)
  from Cons.prems(2) have a: "a \<in> A" and xs: "set xs \<subseteq> A" by simp_all
  note step = set_add_step [OF E Cons.prems(1) a Cons.prems(3)]
  from Cons.IH [OF step(1) xs step(3)]
  have sub: "set (foldl (set_add rt) (set_add rt acc a) xs) \<subseteq> set (set_add rt acc a) \<union> set xs"
    and cnt: "\<forall>x \<in> A. py_count rt x (foldl (set_add rt) (set_add rt acc a) xs)
            = (if py_mem rt x (set_add rt acc a) \<or> py_mem rt x xs then 1 else 0)"
    by simp_all
  from sub step(2) have "set (foldl (set_add rt) acc (a # xs)) \<subseteq> set acc \<union> set (a # xs)"
    by auto
  moreover have "\<forall>x \<in> A. py_count rt x (foldl (set_add rt) acc (a # xs))
            = (if py_mem rt x acc \<or> py_mem rt x (a # xs) then 1 else 0)"
    using cnt step(4) by (auto simp: py_mem_iff)
  ultimately show ?case by simp
qed

lemma set_difference_count:
  assumes E: "py_equivalence rt A" and "x \<in> A" "set s \<subseteq> A" "set t \<subseteq> A"
  shows "py_count rt x (set_difference rt s t) = (if py_mem rt x t then 0 else py_count rt x s)"
proof -
  have "filter (py_eq rt x) (filter (\<lambda>y. \<not> py_mem rt y t) s)
      = filter (\<lambda>y. \<not> py_mem rt x t \<and> py_eq rt x y) s"
    unfolding filter_filter
  proof (rule filter_cong [OF refl])
    fix y assume "y \<in> set s"
    with assms(3) have y: "y \<in> A" by auto
    show "(\<not> py_mem rt y t \<and> py_eq rt x y) = (\<not> py_mem rt x t \<and> py_eq rt x y)"
      using py_mem_transfer [OF E assms(2) y assms(4)] by auto
  qed
  then show ?thesis
    by (simp add: py_count_def set_difference_def)
qed

lemma enumerates_count: "enumerates rt \<Longrightarrow> py_count rt x (set_order rt xs) = py_count rt x xs"
proof -
  assume "enumerates rt"
  then have "mset (set_order rt xs) = mset xs" by (simp add: enumerates_def)
  then have "size (filter_mset (py_eq rt x) (mset (set_order rt xs)))
      = size (filter_mset (py_eq rt x) (mset xs))" by simp
  then show ?thesis by (simp add: py_count_def flip: mset_filter)
qed

lemma enumerates_set: "enumerates rt \<Longrightarrow> set (set_order rt xs) = set xs"
  by (metis enumerates_def mset_eq_setD)

lemma example_runtime_enumerates: "enumerates example_runtime"
  by (simp add: enumerates_def example_runtime_def)

lemma py_set_list:
  "list_all py_hashable xs \<Longrightarrow> py_set rt (VList xs) = Inr (foldl (set_add rt) [] xs)"
  by (simp add: py_set_def)

lemma py_set_unhashable:
  "\<not> list_all py_hashable xs \<Longrightarrow> py_set rt (VList xs) = Inl TypeError"
  by (simp add: py_set_def)

lemma py_set_error: "py_set rt v = Inl e \<Longrightarrow> e = TypeError"
  by (cases v) (auto simp: py_set_def split: if_splits)

subsection \<open>The call\<close>

text \<open>
  The result holds every element of the current list that equals no operand exactly once,
  and no other element.
\<close>

lemma ArrayRemove_call_count:
  assumes get: "get_by_path (VDict D) P = Inr (VList current)"
    and hc: "list_all py_hashable current" and hv: "list_all py_hashable values"
    and E: "py_equivalence rt (set current \<union> set values)"
    and en: "enumerates rt"
  shows "\<exists>res. ArrayRemove_call rt values D P = Inr (VList res)
      \<and> set res \<subseteq> set current
      \<and> (\<forall>x \<in> set current \<union> set values.
            py_count rt x res = (if py_mem rt x current \<and> \<not> py_mem rt x values then 1 else 0))"
proof -
  let ?A = "set current \<union> set values"
  let ?s = "foldl (set_add rt) [] current"
  let ?t = "foldl (set_add rt) [] values"
  let ?res = "set_order rt (set_difference rt ?s ?t)"
  have empty: "\<forall>y \<in> ?A. py_count rt y [] = (if py_mem rt y [] then 1 else 0)"
    by (simp add: py_count_def py_mem_iff)
  from set_add_fold_count [OF E _ _ empty, of current]
  have s_sub: "set ?s \<subseteq> set current"
    and s_cnt: "\<forall>x \<in> ?A. py_count rt x ?s = (if py_mem rt x current then 1 else 0)"
    by (simp_all add: py_mem_iff)
  from set_add_fold_count [OF E _ _ empty, of "values"]
  have t_sub: "set ?t \<subseteq> set values"
    and t_cnt: "\<forall>x \<in> ?A. py_count rt x ?t = (if py_mem rt x values then 1 else 0)"
    by (simp_all add: py_mem_iff)
  have t_mem: "\<forall>x \<in> ?A. py_mem rt x ?t \<longleftrightarrow> py_mem rt x values"
  proof
    fix x assume "x \<in> ?A"
    with t_cnt have "py_count rt x ?t = (if py_mem rt x values then 1 else 0)" by blast
    then show "py_mem rt x ?t \<longleftrightarrow> py_mem rt x values"
      using py_count_pos [of rt x ?t] by (auto split: if_splits)
  qed
  have call: "ArrayRemove_call rt values D P = Inr (VList ?res)"
    by (simp add: ArrayRemove_call_def read_or_present [OF get] py_set_list hc hv)
  have "set ?res \<subseteq> set current"
    using s_sub by (auto simp: enumerates_set [OF en] set_difference_def)
  moreover have "\<forall>x \<in> ?A. py_count rt x ?res
      = (if py_mem rt x current \<and> \<not> py_mem rt x values then 1 else 0)"
  proof
    fix x assume x: "x \<in> ?A"
    have "py_count rt x ?res = py_count rt x (set_difference rt ?s ?t)"
      using en by (rule enumerates_count)
    also have "\<dots> = (if py_mem rt x ?t then 0 else py_count rt x ?s)"
    proof (rule set_difference_count [OF E x])
      show "set ?s \<subseteq> ?A" using s_sub by auto
      show "set ?t \<subseteq> ?A" using t_sub by auto
    qed
    finally show "py_count rt x ?res
      = (if py_mem rt x current \<and> \<not> py_mem rt x values then 1 else 0)"
      using t_mem s_cnt x by auto
  qed
  ultimately show ?thesis using call by blast
qed

lemma ArrayRemove_call_unhashable_values:
  "\<not> list_all py_hashable values \<Longrightarrow> ArrayRemove_call rt values D P = Inl TypeError"
  by (auto simp: ArrayRemove_call_def py_set_unhashable read_or_def get_by_path_caught
      split: sum.splits dest: py_set_error)

text \<open>
  C3. When the document holds a list of hashable elements at the path and the operands
  are hashable, \<^verbatim>\<open>ArrayRemove(values)\<close> returns a list that is, as a set, the current
  elements minus the operands: its elements are elements of the current list, a current
  element is (equal to one) in the result if and only if it equals no operand, and no
  operand is in the result; where \<^verbatim>\<open>==\<close> is plain equality on the elements, the set of
  the result is the set difference. The order of the result is the runtime's
  \<open>set_order\<close>, about which nothing is assumed but that it enumerates every element
  once. When the path is absent the current value is the empty list and the result is
  empty. When an element of the current list, or an operand, is unhashable (a nested
  mapping, a list), the call raises \<^verbatim>\<open>TypeError\<close>.
\<close>

theorem ArrayRemove_call_is_set_difference:
  "(get_by_path (VDict D) P = Inr (VList current)
      \<and> list_all py_hashable current \<and> list_all py_hashable values
      \<and> py_equivalence rt (set current \<union> set values) \<and> enumerates rt \<longrightarrow>
      (\<exists>res. ArrayRemove_call rt values D P = Inr (VList res)
         \<and> set res \<subseteq> set current
         \<and> (\<forall>x \<in> set current. py_mem rt x res \<longleftrightarrow> \<not> py_mem rt x values)
         \<and> (\<forall>x \<in> set values. \<not> py_mem rt x res)
         \<and> ((\<forall>x \<in> set current \<union> set values. \<forall>y \<in> set current \<union> set values.
                py_eq rt x y \<longleftrightarrow> x = y) \<longrightarrow>
              set res = set current - set values)))
   \<and> (get_by_path (VDict D) P = Inl e \<and> list_all py_hashable values \<and> enumerates rt \<longrightarrow>
        ArrayRemove_call rt values D P = Inr (VList []))
   \<and> (get_by_path (VDict D) P = Inr (VList current) \<and> \<not> list_all py_hashable current \<longrightarrow>
        ArrayRemove_call rt values D P = Inl TypeError)
   \<and> (\<not> list_all py_hashable values \<longrightarrow> ArrayRemove_call rt values D P = Inl TypeError)"
proof (intro conjI impI)
  assume a: "get_by_path (VDict D) P = Inr (VList current)
      \<and> list_all py_hashable current \<and> list_all py_hashable values
      \<and> py_equivalence rt (set current \<union> set values) \<and> enumerates rt"
  let ?A = "set current \<union> set values"
  from a have E: "py_equivalence rt ?A" by simp
  from a ArrayRemove_call_count [of D P current "values" rt]
  obtain res where call: "ArrayRemove_call rt values D P = Inr (VList res)"
    and sub: "set res \<subseteq> set current"
    and cnt: "\<forall>x \<in> ?A. py_count rt x res
        = (if py_mem rt x current \<and> \<not> py_mem rt x values then 1 else 0)"
    by blast
  have self: "\<And>x xs. x \<in> ?A \<Longrightarrow> x \<in> set xs \<Longrightarrow> py_mem rt x xs"
    using py_equivalence_refl [OF E] by (auto simp: py_mem_iff)
  have m1: "\<forall>x \<in> set current. py_mem rt x res \<longleftrightarrow> \<not> py_mem rt x values"
  proof
    fix x assume x: "x \<in> set current"
    then have "py_mem rt x current" using self by simp
    with cnt x have "py_count rt x res = (if \<not> py_mem rt x values then 1 else 0)" by simp
    then show "py_mem rt x res \<longleftrightarrow> \<not> py_mem rt x values"
      using py_count_pos [of rt x res] by (auto split: if_splits)
  qed
  have m2: "\<forall>x \<in> set values. \<not> py_mem rt x res"
  proof
    fix x assume x: "x \<in> set values"
    then have "py_mem rt x values" using self by simp
    with cnt x have "py_count rt x res = 0" by simp
    then show "\<not> py_mem rt x res"
      using py_count_pos [of rt x res] by simp
  qed
  have m3: "set res = set current - set values"
    if plain: "\<forall>x \<in> ?A. \<forall>y \<in> ?A. py_eq rt x y \<longleftrightarrow> x = y"
  proof
    show "set res \<subseteq> set current - set values"
    proof
      fix x assume x: "x \<in> set res"
      with sub have xc: "x \<in> set current" by auto
      then have "py_mem rt x res" using self x by simp
      with m2 have "x \<notin> set values" by blast
      with xc show "x \<in> set current - set values" by simp
    qed
    show "set current - set values \<subseteq> set res"
    proof
      fix x assume x: "x \<in> set current - set values"
      then have "\<not> py_mem rt x values" using plain by (auto simp: py_mem_iff)
      with m1 x have "py_mem rt x res" by simp
      then obtain z where z: "z \<in> set res" "py_eq rt x z" by (auto simp: py_mem_iff)
      with sub plain x have "x = z" by auto
      with z show "x \<in> set res" by simp
    qed
  qed
  from call sub m1 m2 m3
  show "\<exists>res. ArrayRemove_call rt values D P = Inr (VList res)
         \<and> set res \<subseteq> set current
         \<and> (\<forall>x \<in> set current. py_mem rt x res \<longleftrightarrow> \<not> py_mem rt x values)
         \<and> (\<forall>x \<in> set values. \<not> py_mem rt x res)
         \<and> ((\<forall>x \<in> set current \<union> set values. \<forall>y \<in> set current \<union> set values.
                py_eq rt x y \<longleftrightarrow> x = y) \<longrightarrow>
              set res = set current - set values)"
    by blast
next
  assume a: "get_by_path (VDict D) P = Inl e \<and> list_all py_hashable values \<and> enumerates rt"
  then have "set_order rt [] = []"
    using enumerates_set [of rt "[]"] by simp
  with a show "ArrayRemove_call rt values D P = Inr (VList [])"
    by (simp add: ArrayRemove_call_def read_or_absent py_set_list set_difference_def)
next
  assume "get_by_path (VDict D) P = Inr (VList current) \<and> \<not> list_all py_hashable current"
  then show "ArrayRemove_call rt values D P = Inl TypeError"
    by (simp add: ArrayRemove_call_def read_or_present py_set_unhashable)
next
  assume "\<not> list_all py_hashable values"
  then show "ArrayRemove_call rt values D P = Inl TypeError"
    by (rule ArrayRemove_call_unhashable_values)
qed

theorem ArrayRemove_call_is_set_difference_witness:
  "get_by_path (VDict [(''tags'', VList [VStr ''a'', VStr ''b'', VStr ''c''] :: rat val)]) [''tags'']
      = Inr (VList [VStr ''a'', VStr ''b'', VStr ''c''])
   \<and> list_all py_hashable [VStr ''a'', VStr ''b'', VStr ''c'' :: rat val]
   \<and> list_all py_hashable [VStr ''b'' :: rat val]
   \<and> py_equivalence example_runtime (set [VStr ''a'', VStr ''b'', VStr ''c''] \<union> set [VStr ''b''])
   \<and> enumerates example_runtime
   \<and> ArrayRemove_call example_runtime [VStr ''b'']
        [(''tags'', VList [VStr ''a'', VStr ''b'', VStr ''c''])] [''tags'']
      = Inr (VList [VStr ''a'', VStr ''c''])
   \<and> set [VStr ''a'', VStr ''c'' :: rat val] = set [VStr ''a'', VStr ''b'', VStr ''c''] - set [VStr ''b'']
   \<and> get_by_path (VDict ([] :: rat dict)) [''tags''] = Inl KeyError
   \<and> ArrayRemove_call example_runtime [VStr ''b''] [] [''tags''] = Inr (VList [])
   \<and> get_by_path (VDict [(''tags'', VList [VDict [(''k'', VInt 1)]] :: rat val)]) [''tags'']
      = Inr (VList [VDict [(''k'', VInt 1)]])
   \<and> \<not> list_all py_hashable [VDict [(''k'', VInt 1)] :: rat val]
   \<and> ArrayRemove_call example_runtime [VStr ''b'']
        [(''tags'', VList [VDict [(''k'', VInt 1)]])] [''tags''] = Inl TypeError
   \<and> ArrayRemove_call example_runtime [VDict [(''k'', VInt 1)]]
        [(''tags'', VList [VStr ''a''])] [''tags''] = Inl TypeError"
proof -
  let ?cur = "[VStr ''a'', VStr ''b'', VStr ''c'' :: rat val]"
  let ?doc = "[(''tags'', VList ?cur)]"
  let ?nested = "[VDict [(''k'', VInt 1)] :: rat val]"
  have h1: "get_by_path (VDict ?doc) [''tags''] = Inr (VList ?cur)" by simp
  have h2: "list_all py_hashable ?cur" by simp
  have h3: "list_all py_hashable [VStr ''b'' :: rat val]" by simp
  have h4: "py_equivalence example_runtime (set ?cur \<union> set [VStr ''b''])"
    by (simp add: py_equivalence_def)
  have h5: "enumerates example_runtime" by (rule example_runtime_enumerates)
  have plain: "\<forall>x \<in> set ?cur \<union> set [VStr ''b'']. \<forall>y \<in> set ?cur \<union> set [VStr ''b''].
      py_eq example_runtime x y \<longleftrightarrow> x = y" by simp
  have c: "ArrayRemove_call example_runtime [VStr ''b''] ?doc [''tags'']
      = Inr (VList [VStr ''a'', VStr ''c''])" by code_simp
  have g1: "get_by_path (VDict ([] :: rat dict)) [''tags''] = Inl KeyError" by simp
  have g2: "get_by_path (VDict [(''tags'', VList ?nested)]) [''tags''] = Inr (VList ?nested)" by simp
  have g3: "\<not> list_all py_hashable ?nested" by simp
  from ArrayRemove_call_is_set_difference
    [of ?doc "[''tags'']" ?cur "[VStr ''b'']" example_runtime KeyError] h1 h2 h3 h4 h5 plain c
  have r1: "set [VStr ''a'', VStr ''c'' :: rat val] = set ?cur - set [VStr ''b'']"
    by auto
  from ArrayRemove_call_is_set_difference
    [of "[]" "[''tags'']" ?cur "[VStr ''b'']" example_runtime KeyError] g1 h3 h5
  have r2: "ArrayRemove_call example_runtime [VStr ''b''] [] [''tags''] = Inr (VList [])"
    by blast
  from ArrayRemove_call_is_set_difference
    [of "[(''tags'', VList ?nested)]" "[''tags'']" ?nested "[VStr ''b'']" example_runtime KeyError] g2 g3
  have r3: "ArrayRemove_call example_runtime [VStr ''b''] [(''tags'', VList ?nested)] [''tags'']
      = Inl TypeError"
    by blast
  from ArrayRemove_call_is_set_difference
    [of "[(''tags'', VList [VStr ''a''])]" "[''tags'']" ?cur ?nested example_runtime KeyError] g3
  have r4: "ArrayRemove_call example_runtime ?nested [(''tags'', VList [VStr ''a''])] [''tags'']
      = Inl TypeError"
    by blast
  from h1 h2 h3 h4 h5 c r1 g1 r2 g2 g3 r3 r4 show ?thesis by blast
qed

text \<open>
  C10. \<^verbatim>\<open>ArrayRemove\<close> collapses duplicates: every element of the result occurs in it
  exactly once, and every element of the current list that equals no operand occurs in
  the result exactly once, however often it occurs in the current list. Removing
  \<^verbatim>\<open>["y"]\<close> from \<^verbatim>\<open>["x", "x", "y"]\<close> yields the list with the single element \<^verbatim>\<open>"x"\<close>.
\<close>

theorem ArrayRemove_call_collapses_duplicates:
  assumes "get_by_path (VDict D) P = Inr (VList current)"
    and "list_all py_hashable current" and "list_all py_hashable values"
    and "py_equivalence rt (set current \<union> set values)"
    and "enumerates rt"
  shows "\<exists>res. ArrayRemove_call rt values D P = Inr (VList res)
      \<and> (\<forall>x \<in> set res. py_count rt x res = 1)
      \<and> (\<forall>x \<in> set current. \<not> py_mem rt x values \<longrightarrow> py_count rt x res = 1)"
proof -
  let ?A = "set current \<union> set values"
  from ArrayRemove_call_count [OF assms]
  obtain res where call: "ArrayRemove_call rt values D P = Inr (VList res)"
    and sub: "set res \<subseteq> set current"
    and cnt: "\<forall>x \<in> ?A. py_count rt x res
        = (if py_mem rt x current \<and> \<not> py_mem rt x values then 1 else 0)"
    by blast
  have self: "\<And>x xs. x \<in> ?A \<Longrightarrow> x \<in> set xs \<Longrightarrow> py_mem rt x xs"
    using py_equivalence_refl [OF assms(4)] by (auto simp: py_mem_iff)
  have "\<forall>x \<in> set res. py_count rt x res = 1"
  proof
    fix x assume x: "x \<in> set res"
    with sub have xa: "x \<in> ?A" by auto
    with x self have "0 < py_count rt x res" by (simp add: py_count_pos)
    with cnt xa show "py_count rt x res = 1" by (auto split: if_splits)
  qed
  moreover have "\<forall>x \<in> set current. \<not> py_mem rt x values \<longrightarrow> py_count rt x res = 1"
    using cnt self by auto
  ultimately show ?thesis using call by blast
qed

theorem ArrayRemove_call_collapses_duplicates_witness:
  "get_by_path (VDict [(''tags'', VList [VStr ''x'', VStr ''x'', VStr ''y''] :: rat val)]) [''tags'']
      = Inr (VList [VStr ''x'', VStr ''x'', VStr ''y''])
   \<and> list_all py_hashable [VStr ''x'', VStr ''x'', VStr ''y'' :: rat val]
   \<and> list_all py_hashable [VStr ''y'' :: rat val]
   \<and> py_equivalence example_runtime (set [VStr ''x'', VStr ''x'', VStr ''y''] \<union> set [VStr ''y''])
   \<and> enumerates example_runtime
   \<and> ArrayRemove_call example_runtime [VStr ''y'']
        [(''tags'', VList [VStr ''x'', VStr ''x'', VStr ''y''])] [''tags''] = Inr (VList [VStr ''x''])
   \<and> py_count example_runtime (VStr ''x'') [VStr ''x''] = 1"
proof -
  have h1: "get_by_path (VDict [(''tags'', VList [VStr ''x'', VStr ''x'', VStr ''y''] :: rat val)]) [''tags'']
      = Inr (VList [VStr ''x'', VStr ''x'', VStr ''y''])" by simp
  have h2: "list_all py_hashable [VStr ''x'', VStr ''x'', VStr ''y'' :: rat val]" by simp
  have h3: "list_all py_hashable [VStr ''y'' :: rat val]" by simp
  have h4: "py_equivalence example_runtime (set [VStr ''x'', VStr ''x'', VStr ''y''] \<union> set [VStr ''y''])"
    by (simp add: py_equivalence_def)
  have h5: "enumerates example_runtime" by (rule example_runtime_enumerates)
  have c: "ArrayRemove_call example_runtime [VStr ''y'']
        [(''tags'', VList [VStr ''x'', VStr ''x'', VStr ''y''])] [''tags''] = Inr (VList [VStr ''x''])"
    by code_simp
  from ArrayRemove_call_collapses_duplicates [OF h1 h2 h3 h4 h5] c
  have "py_count example_runtime (VStr ''x'') [VStr ''x''] = 1" by auto
  with h1 h2 h3 h4 h5 c show ?thesis by blast
qed

end
